theory Spec2Isabelle
  imports Main "HOL-Library.AList" "HOL-Library.Sublist" "HOL-Library.Monad_Syntax"
begin

section \<open>Strings\<close>

text \<open>
  A JavaScript string is represented by its UTF-8 encoding, a list of bytes, so that
  \<open>Buffer.byteLength(s, 'utf8')\<close> is the length of the list. The character classes of
  the regular expressions of \<open>main.js\<close> (\<open>\d\<close>, \<open>\w\<close>, \<open>[\w.-]\<close>,
  \<open>[a-zA-Z0-9-]\<close>) are ASCII classes, and no byte of a multi-byte character belongs to
  them. White space (\<open>\s\<close>, \<open>trim\<close>) is the ECMAScript set, listed by encoding.
\<close>

definition byteLength :: "string \<Rightarrow> int" where
  "byteLength s = int (length s)"

definition digit :: "char \<Rightarrow> bool" where
  "digit c = (c \<in> set ''0123456789'')"

definition upper_letters :: string where
  "upper_letters = ''ABCDEFGHIJKLMNOPQRSTUVWXYZ''"

definition lower_letters :: string where
  "lower_letters = ''abcdefghijklmnopqrstuvwxyz''"

definition alnum :: "char \<Rightarrow> bool" where
  "alnum c = (c \<in> set lower_letters \<or> c \<in> set upper_letters \<or> digit c)"

text \<open>\<open>\w\<close>\<close>

definition word_char :: "char \<Rightarrow> bool" where
  "word_char c = (alnum c \<or> c = CHR ''_'')"

text \<open>\<open>[\w.-]\<close>\<close>

definition path_char :: "char \<Rightarrow> bool" where
  "path_char c = (word_char c \<or> c = CHR ''.'' \<or> c = CHR ''-'')"

text \<open>\<open>[a-zA-Z0-9-]\<close>\<close>

definition user_char :: "char \<Rightarrow> bool" where
  "user_char c = (alnum c \<or> c = CHR ''-'')"

text \<open>
  The white space and line terminators of ECMAScript, each as its UTF-8 encoding:
  U+0009 to U+000D, U+0020, U+00A0, U+1680, U+2000 to U+200A, U+2028, U+2029, U+202F,
  U+205F, U+3000 and U+FEFF.
\<close>

definition white_space :: "string list" where
  "white_space =
     [[CHR 0x09], [CHR 0x0A], [CHR 0x0B], [CHR 0x0C], [CHR 0x0D], [CHR 0x20],
      [CHR 0xC2, CHR 0xA0],
      [CHR 0xE1, CHR 0x9A, CHR 0x80],
      [CHR 0xE2, CHR 0x80, CHR 0x80], [CHR 0xE2, CHR 0x80, CHR 0x81],
      [CHR 0xE2, CHR 0x80, CHR 0x82], [CHR 0xE2, CHR 0x80, CHR 0x83],
      [CHR 0xE2, CHR 0x80, CHR 0x84], [CHR 0xE2, CHR 0x80, CHR 0x85],
      [CHR 0xE2, CHR 0x80, CHR 0x86], [CHR 0xE2, CHR 0x80, CHR 0x87],
      [CHR 0xE2, CHR 0x80, CHR 0x88], [CHR 0xE2, CHR 0x80, CHR 0x89],
      [CHR 0xE2, CHR 0x80, CHR 0x8A],
      [CHR 0xE2, CHR 0x80, CHR 0xA8], [CHR 0xE2, CHR 0x80, CHR 0xA9],
      [CHR 0xE2, CHR 0x80, CHR 0xAF],
      [CHR 0xE2, CHR 0x81, CHR 0x9F],
      [CHR 0xE3, CHR 0x80, CHR 0x80],
      [CHR 0xEF, CHR 0xBB, CHR 0xBF]]"

text \<open>The white-space character a string starts with, and the one it ends with.\<close>

definition ws_prefix :: "string \<Rightarrow> string option" where
  "ws_prefix s = find (\<lambda>w. take (length w) s = w) white_space"

definition ws_suffix :: "string \<Rightarrow> string option" where
  "ws_suffix s = find (\<lambda>w. length w \<le> length s \<and> drop (length s - length w) s = w) white_space"

lemma find_Some_set: "find P xs = Some x \<Longrightarrow> x \<in> set xs \<and> P x"
  by (induction xs) (auto split: if_splits)

lemma white_space_nonempty: "w \<in> set white_space \<Longrightarrow> w \<noteq> []"
  by (auto simp: white_space_def)

lemma ws_prefix_Some: "ws_prefix s = Some w \<Longrightarrow> w \<noteq> [] \<and> take (length w) s = w"
proof -
  assume "ws_prefix s = Some w"
  then have "w \<in> set white_space \<and> take (length w) s = w"
    unfolding ws_prefix_def by (rule find_Some_set)
  then show ?thesis by (simp add: white_space_nonempty)
qed

lemma ws_suffix_Some:
  "ws_suffix s = Some w \<Longrightarrow> w \<noteq> [] \<and> length w \<le> length s \<and> drop (length s - length w) s = w"
proof -
  assume "ws_suffix s = Some w"
  then have "w \<in> set white_space \<and> (length w \<le> length s \<and> drop (length s - length w) s = w)"
    unfolding ws_suffix_def by (rule find_Some_set)
  then show ?thesis by (simp add: white_space_nonempty)
qed

function trimStart :: "string \<Rightarrow> string" where
  "trimStart s = (case ws_prefix s of Some w \<Rightarrow> trimStart (drop (length w) s) | None \<Rightarrow> s)"
  by pat_completeness auto
termination
proof (relation "measure length")
  fix s w assume "ws_prefix s = Some w"
  then have "w \<noteq> []" "take (length w) s = w" using ws_prefix_Some by blast+
  then have "s \<noteq> []" by auto
  with \<open>w \<noteq> []\<close> show "(drop (length w) s, s) \<in> measure length" by simp
qed simp

function trimEnd :: "string \<Rightarrow> string" where
  "trimEnd s = (case ws_suffix s of Some w \<Rightarrow> trimEnd (take (length s - length w) s) | None \<Rightarrow> s)"
  by pat_completeness auto
termination
proof (relation "measure length")
  fix s w assume "ws_suffix s = Some w"
  then have "w \<noteq> []" "length w \<le> length s" using ws_suffix_Some by blast+
  then show "(take (length s - length w) s, s) \<in> measure length" by (cases w) auto
qed simp

declare trimStart.simps [simp del] trimEnd.simps [simp del]

text \<open>\<open>String.prototype.trim\<close>\<close>

definition trim :: "string \<Rightarrow> string" where
  "trim s = trimEnd (trimStart s)"

text \<open>\<open>s.split(d)\<close> for a one-character separator: never the empty list.\<close>

fun split :: "char \<Rightarrow> string \<Rightarrow> string list" where
  "split d [] = [[]]"
| "split d (c # cs) =
     (if c = d then [] # split d cs
      else (case split d cs of p # ps \<Rightarrow> (c # p) # ps | [] \<Rightarrow> [[c]]))"

text \<open>\<open>parts.join(sep)\<close>\<close>

fun join :: "string \<Rightarrow> string list \<Rightarrow> string" where
  "join sep [] = []"
| "join sep [p] = p"
| "join sep (p # q # ps) = p @ sep @ join sep (q # ps)"

definition startsWith :: "string \<Rightarrow> string \<Rightarrow> bool" where
  "startsWith s p = (take (length p) s = p)"

section \<open>Version normalisation\<close>

text \<open>
  \<open>(?:\.\d+)*\<close> at the head of a string, greedy: the matched text and the rest. A run of
  digits is followed by a character that is not a digit, so giving back part of a run
  never lets a later \<open>\.\<close> match, and the longest match is the only candidate.
\<close>

function dot_groups :: "string \<Rightarrow> string \<times> string" where
  "dot_groups s =
     (case s of
        [] \<Rightarrow> ([], s)
      | c # t \<Rightarrow>
          if c = CHR ''.'' \<and> takeWhile digit t \<noteq> []
          then (case dot_groups (dropWhile digit t) of (g, r) \<Rightarrow> (c # takeWhile digit t @ g, r))
          else ([], s))"
  by pat_completeness auto
termination
  by (relation "measure length") (auto simp: length_dropWhile_le le_imp_less_Suc)

declare dot_groups.simps [simp del]

text \<open>\<open>\d+(?:\.\d+)+\<close> at the head of a string.\<close>

definition dotted :: "string \<Rightarrow> (string \<times> string) option" where
  "dotted s =
     (if takeWhile digit s = [] then None
      else (case dot_groups (dropWhile digit s) of (g, r) \<Rightarrow>
              if g = [] then None else Some (takeWhile digit s @ g, r)))"

text \<open>\<open>version.match(/(\d+(?:\.\d+)+)/)\<close>: the leftmost match.\<close>

fun first_dotted :: "string \<Rightarrow> string option" where
  "first_dotted [] = None"
| "first_dotted (c # cs) =
     (case dotted (c # cs) of Some (m, r) \<Rightarrow> Some m | None \<Rightarrow> first_dotted cs)"

definition sanitizeVersion :: "string \<Rightarrow> string" where
  "sanitizeVersion version =
     (case first_dotted version of Some m \<Rightarrow> CHR ''v'' # m | None \<Rightarrow> [])"

section \<open>Markdown rewriting\<close>

text \<open>
  A matcher is one regular expression of \<open>githubMarkdown\<close> tried at the head of the
  remaining text, together with its replacement function: it returns the matched text and
  what replaces it. The flag says whether the head is the start of the whole text, which
  is where \<open>^\<close> matches.
\<close>

type_synonym matcher = "bool \<Rightarrow> string \<Rightarrow> (string \<times> string) option"

text \<open>A literal at the head: the rest of the text.\<close>

definition lit :: "string \<Rightarrow> string \<Rightarrow> string option" where
  "lit p s = (if take (length p) s = p then Some (drop (length p) s) else None)"

text \<open>
  A class with \<open>+\<close> at the head, greedy: the run and the rest. It is used where the
  next thing to match is outside the class, so that no shorter run can succeed.
\<close>

definition run1 :: "(char \<Rightarrow> bool) \<Rightarrow> string \<Rightarrow> (string \<times> string) option" where
  "run1 P s = (if takeWhile P s = [] then None else Some (takeWhile P s, dropWhile P s))"

text \<open>\<open>(issues|pull)\<close>\<close>

definition issues_or_pull :: "string \<Rightarrow> (string \<times> string) option" where
  "issues_or_pull s =
     (case lit ''issues'' s of
        Some r \<Rightarrow> Some (''issues'', r)
      | None \<Rightarrow> (case lit ''pull'' s of Some r \<Rightarrow> Some (''pull'', r) | None \<Rightarrow> None))"

text \<open>
  \<open>/https:\/\/github\.com\/([\w.-]+)\/([\w.-]+)\/(issues|pull)\/(\d+)/\<close> with the
  replacement \<open>[#num](https://github.com/owner/repo/type/num)\<close>.
\<close>

definition issue_link :: matcher where
  "issue_link start s = do {
     s1 \<leftarrow> lit ''https://github.com/'' s;
     (owner, s2) \<leftarrow> run1 path_char s1;
     s3 \<leftarrow> lit ''/'' s2;
     (repo, s4) \<leftarrow> run1 path_char s3;
     s5 \<leftarrow> lit ''/'' s4;
     (type, s6) \<leftarrow> issues_or_pull s5;
     s7 \<leftarrow> lit ''/'' s6;
     (num, s8) \<leftarrow> run1 digit s7;
     Some (''https://github.com/'' @ owner @ ''/'' @ repo @ ''/'' @ type @ ''/'' @ num,
           ''[#'' @ num @ ''](https://github.com/'' @ owner @ ''/'' @ repo @ ''/'' @ type
             @ ''/'' @ num @ '')'')
   }"

text \<open>\<open>\b\<close> between two neighbouring characters; \<open>None\<close> is an end of the text.\<close>

definition boundary :: "char option \<Rightarrow> char option \<Rightarrow> bool" where
  "boundary a b =
     ((case a of Some c \<Rightarrow> word_char c | None \<Rightarrow> False)
        \<noteq> (case b of Some c \<Rightarrow> word_char c | None \<Rightarrow> False))"

definition head_char :: "string \<Rightarrow> char option" where
  "head_char s = (case s of [] \<Rightarrow> None | c # _ \<Rightarrow> Some c)"

text \<open>
  \<open>([a-zA-Z0-9-]+)\b\<close> at the head: the longest non-empty part of the run of name
  characters that ends at a word boundary. The run may end in \<open>-\<close> or be followed by
  \<open>_\<close>, so the expression gives characters back until \<open>\b\<close> holds: the
  candidates are the non-empty prefixes of the run, the longest first.
\<close>

definition user_name :: "string \<Rightarrow> string option" where
  "user_name s =
     find (\<lambda>u. boundary (Some (last u)) (head_char (drop (length u) s)))
       (rev (tl (prefixes (takeWhile user_char s))))"

text \<open>
  \<open>@([a-zA-Z0-9-]+)\b\<close> after the prefix that \<open>(^|\s)\<close> has matched, with the
  replacement \<open>[prefix@username](https://github.com/username)\<close>.
\<close>

definition mention_after :: "string \<Rightarrow> string \<Rightarrow> (string \<times> string) option" where
  "mention_after pre s = do {
     s1 \<leftarrow> lit ''@'' s;
     username \<leftarrow> user_name s1;
     Some (pre @ ''@'' @ username,
           ''['' @ pre @ ''@'' @ username @ ''](https://github.com/'' @ username @ '')'')
   }"

text \<open>\<open>/(^|\s)@([a-zA-Z0-9-]+)\b/\<close>: the alternative \<open>^\<close> first, then \<open>\s\<close>.\<close>

definition mention :: matcher where
  "mention start s =
     (case (if start then mention_after [] s else None) of
        Some m \<Rightarrow> Some m
      | None \<Rightarrow>
          (case ws_prefix s of
             Some w \<Rightarrow> mention_after w (drop (length w) s)
           | None \<Rightarrow> None))"

text \<open>\<open>v?\d+(?:\.\d+)+\<close>\<close>

definition version_ref :: "string \<Rightarrow> (string \<times> string) option" where
  "version_ref s =
     (case s of
        [] \<Rightarrow> None
      | c # t \<Rightarrow>
          if c = CHR ''v'' then map_option (\<lambda>(m, r). (c # m, r)) (dotted t) else dotted s)"

text \<open>
  \<open>/https:\/\/github\.com\/([\w.-]+\/[\w.-]+)\/compare\/(v?\d+(?:\.\d+)+)\.\.\.(v?\d+(?:\.\d+)+)/\<close>
  with the replacement \<open>[fromVer...toVer](match)\<close>.
\<close>

definition compare_link :: matcher where
  "compare_link start s = do {
     s1 \<leftarrow> lit ''https://github.com/'' s;
     (owner, s2) \<leftarrow> run1 path_char s1;
     s3 \<leftarrow> lit ''/'' s2;
     (repo, s4) \<leftarrow> run1 path_char s3;
     s5 \<leftarrow> lit ''/compare/'' s4;
     (fromVer, s6) \<leftarrow> version_ref s5;
     s7 \<leftarrow> lit ''...'' s6;
     (toVer, s8) \<leftarrow> version_ref s7;
     (let match = ''https://github.com/'' @ owner @ ''/'' @ repo @ ''/compare/'' @ fromVer
                    @ ''...'' @ toVer
      in Some (match, ''['' @ fromVer @ ''...'' @ toVer @ '']('' @ match @ '')''))
   }"

text \<open>
  \<open>text.replace(/.../g, f)\<close>: the matches are found from left to right, each search
  starting where the last match ended; text between matches is kept. The three
  expressions match no empty text.
\<close>

function replace_from :: "bool \<Rightarrow> matcher \<Rightarrow> string \<Rightarrow> string" where
  "replace_from start m [] = []"
| "replace_from start m (c # cs) =
     (case m start (c # cs) of
        Some (matched, replacement) \<Rightarrow>
          replacement @ replace_from False m (drop (length matched - 1) cs)
      | None \<Rightarrow> c # replace_from False m cs)"
  by pat_completeness auto
termination
  by (relation "measure (\<lambda>(start, m, s). length s)") auto

definition replace :: "matcher \<Rightarrow> string \<Rightarrow> string" where
  "replace m s = replace_from True m s"

section \<open>Data\<close>

text \<open>A release object of the hosting API; \<open>None\<close> is \<open>null\<close>.\<close>

record release =
  tag_name :: string
  name :: "string option"
  published_at :: string
  html_url :: string
  body :: "string option"
  draft :: bool
  prerelease :: bool

text \<open>The result of \<open>parseLine\<close>; \<open>repo\<close> is \<open>null\<close> for a comment line.\<close>

record repo_line =
  repo :: "string option"
  beta :: bool

text \<open>A request to the notification gateway: the headers \<open>Title\<close> and \<open>Tags\<close>, and the body.\<close>

record notification =
  title :: string
  tags :: string
  payload :: string

datatype level = DEBUG | INFO | ERROR

text \<open>
  What can be thrown: reading the named property of \<open>undefined\<close>, a rejected request
  to the hosting API with its status, a rejected request to the gateway, and a failure to
  read the repository file.
\<close>

datatype error = TypeError string | GithubError nat | NtfyError | FileError

text \<open>
  The answer to \<open>axios(url)\<close>: the data of a successful response, a rejection that
  carries a response with a status, or a rejection without a response.
\<close>

datatype response = Data "release list" | Status nat | NoResponse

text \<open>
  What the program takes from outside: the packages \<open>node-emoji\<close> and
  \<open>compare-versions\<close>, the date formatting and the case mapping of the runtime
  (\<open>String.prototype.toLowerCase\<close>, which follows the Unicode standard), the two
  remote services, the repository file (\<open>None\<close> when it cannot be read) and the
  value of \<open>ms(CHECK_INTERVAL)\<close>.
\<close>

record deps =
  toLowerCase :: "string \<Rightarrow> string"
  emojify :: "string \<Rightarrow> string"
  validate :: "string \<Rightarrow> bool"
  compareVersions :: "string \<Rightarrow> string \<Rightarrow> int"
  toLocaleString :: "string \<Rightarrow> string"
  github :: "string \<Rightarrow> response"
  ntfy :: "notification \<Rightarrow> bool"
  repoFile :: "string option"
  checkInterval :: int

text \<open>
  The state the program changes: the own properties of the object \<open>db.data.releases\<close>
  in insertion order, the requests sent to the gateway, the calls of the logger (with the
  error passed, if any), the delays of the timers set, and the errors of the promises that
  were rejected with nothing to handle them. Writing the store to its file is left out.
\<close>

record state =
  releases :: "(string \<times> string) list"
  posted :: "notification list"
  logged :: "(level \<times> string \<times> error option) list"
  timers :: "int list"
  unhandled :: "error list"

definition log :: "level \<Rightarrow> string \<Rightarrow> state \<Rightarrow> state" where
  "log l msg st = st\<lparr>logged := logged st @ [(l, msg, None)]\<rparr>"

definition log_error :: "string \<Rightarrow> error \<Rightarrow> state \<Rightarrow> state" where
  "log_error msg err st = st\<lparr>logged := logged st @ [(ERROR, msg, Some err)]\<rparr>"

definition MAX_MESSAGE_BYTES :: int where
  "MAX_MESSAGE_BYTES = 4000"

section \<open>The program\<close>

text \<open>How a template literal prints a boolean, a number and \<open>null\<close>.\<close>

definition show_bool :: "bool \<Rightarrow> string" where
  "show_bool b = (if b then ''true'' else ''false'')"

fun show_nat :: "nat \<Rightarrow> string" where
  "show_nat n =
     (if n < 10 then [''0123456789'' ! n] else show_nat (n div 10) @ [''0123456789'' ! (n mod 10)])"

declare show_nat.simps [simp del]

definition show_null :: "string option \<Rightarrow> string" where
  "show_null v = (case v of None \<Rightarrow> ''null'' | Some s \<Rightarrow> s)"

definition updateVersion :: "string \<Rightarrow> string \<Rightarrow> state \<Rightarrow> state" where
  "updateVersion rp version st = st\<lparr>releases := AList.update rp version (releases st)\<rparr>"

definition loadRepoLines :: "deps \<Rightarrow> error + string list" where
  "loadRepoLines d =
     (case repoFile d of
        None \<Rightarrow> Inl FileError
      | Some content \<Rightarrow>
          Inr (filter (\<lambda>line. length line > 0) (map trim (split (CHR 0x0A) content))))"

definition parseLine :: "deps \<Rightarrow> string \<Rightarrow> repo_line" where
  "parseLine d line =
     (if startsWith line ''#'' then \<lparr>repo = None, beta = False\<rparr>
      else
        (case map (\<lambda>part. toLowerCase d (trim part)) (split CHR '':'' line) of
           [] \<Rightarrow> \<lparr>repo = None, beta = False\<rparr>
         | [p0] \<Rightarrow> \<lparr>repo = Some p0, beta = False\<rparr>
         | p0 # p1 # _ \<Rightarrow> \<lparr>repo = Some p0, beta = (p1 = ''beta'')\<rparr>))"

definition githubMarkdown :: "deps \<Rightarrow> string \<Rightarrow> string" where
  "githubMarkdown d text =
     emojify d (replace compare_link (replace mention (replace issue_link text)))"

definition sendNtfy :: "deps \<Rightarrow> string \<Rightarrow> string \<Rightarrow> string \<Rightarrow> state \<Rightarrow> (error + unit) \<times> state" where
  "sendNtfy d ttl tag message st =
     (let n = \<lparr>title = ttl, tags = tag, payload = githubMarkdown d message\<rparr>;
          st1 = st\<lparr>posted := posted st @ [n]\<rparr>
      in if ntfy d n then (Inr (), st1) else (Inl NtfyError, st1))"

text \<open>
  \<open>fetchReleases\<close> returns \<open>undefined\<close> (\<open>None\<close>) after a 404. There \<open>sendNtfy\<close> is
  called and not awaited: the request is sent, \<open>fetchReleases\<close> returns without its
  outcome, and when the request fails the promise of \<open>sendNtfy\<close> is rejected with
  nothing to handle it.
\<close>

definition fetchReleases :: "deps \<Rightarrow> string \<Rightarrow> state \<Rightarrow> (error + release list option) \<times> state" where
  "fetchReleases d rp st =
     (case github d (''https://api.github.com/repos/'' @ rp @ ''/releases'') of
        Data rs \<Rightarrow> (Inr (Some rs), st)
      | NoResponse \<Rightarrow> (Inl (TypeError ''status''), st)
      | Status code \<Rightarrow>
          if code = 404 then
            (let st1 = log ERROR (''Repository not found: '' @ rp) st
             in case sendNtfy d ''Error'' ''exclamation'' (''Repository not found: '' @ rp) st1 of
                  (Inl err, st2) \<Rightarrow> (Inr None, st2\<lparr>unhandled := unhandled st2 @ [err]\<rparr>)
                | (Inr _, st2) \<Rightarrow> (Inr None, st2))
          else (Inl (GithubError code), st))"

definition trunkateReleaseBody :: "string \<Rightarrow> string \<Rightarrow> int \<Rightarrow> state \<Rightarrow> string \<times> state" where
  "trunkateReleaseBody bdy url maxBytes st =
     (if byteLength bdy \<le> maxBytes then (bdy, st)
      else (''Full release notes: ['' @ url @ '']('' @ url @ '')'',
            log DEBUG (''Truncating release notes for '' @ url) st))"

text \<open>The two \<open>releases.find\<close> of \<open>processRepoLine\<close>.\<close>

definition latestRelease :: "release list \<Rightarrow> bool \<Rightarrow> release option" where
  "latestRelease rs bt =
     (case find (\<lambda>r. if draft r then False else if \<not> bt \<and> prerelease r then False else True) rs of
        Some r \<Rightarrow> Some r
      | None \<Rightarrow> find (\<lambda>r. \<not> draft r) rs)"

text \<open>The header block of the message; the line break is U+000A.\<close>

definition headers :: "deps \<Rightarrow> string \<Rightarrow> release \<Rightarrow> string \<Rightarrow> string" where
  "headers d rp r currentVersion =
     emojify d (join [CHR 0x0A]
       [''**'' @ show_null (name r) @ ''**'',
        ''Repo: ['' @ rp @ '']('' @ html_url r @ '')'',
        ''Version: '' @ currentVersion,
        ''Published: '' @ toLocaleString d (published_at r),
        [],
        []])"

text \<open>\<open>latestRelease.body || "No release notes."\<close>\<close>

definition releaseBody :: "release \<Rightarrow> string" where
  "releaseBody r =
     (case body r of
        None \<Rightarrow> ''No release notes.''
      | Some b \<Rightarrow> if b = [] then ''No release notes.'' else b)"

text \<open>\<open>repo.split('/')[1]\<close> in a template literal.\<close>

definition repo_name :: "string \<Rightarrow> string" where
  "repo_name rp = (case split CHR ''/'' rp of _ # p # _ \<Rightarrow> p | _ \<Rightarrow> ''undefined'')"

text \<open>The branch of \<open>processRepoLine\<close> taken when \<open>compareResult === -1\<close>.\<close>

definition notifyRelease :: "deps \<Rightarrow> string \<Rightarrow> release \<Rightarrow> string \<Rightarrow> state \<Rightarrow> (error + unit) \<times> state" where
  "notifyRelease d rp r currentVersion st =
     (let st1 = log INFO (''New release found for '' @ rp @ '' - repo: '' @ rp) st;
          st2 = updateVersion rp currentVersion st1;
          ttl = ''New release available for '' @ repo_name rp @ ''!'';
          hdr = headers d rp r currentVersion;
          maxBodyBytes = MAX_MESSAGE_BYTES - byteLength hdr;
          (b, st3) = trunkateReleaseBody (emojify d (releaseBody r)) (html_url r) maxBodyBytes st2
      in sendNtfy d ttl ''loudspeaker'' (hdr @ b) st3)"

text \<open>The branch of \<open>processRepoLine\<close> taken when \<open>!lastVersion\<close> holds.\<close>

definition createEntry :: "string \<Rightarrow> string \<Rightarrow> state \<Rightarrow> (error + unit) \<times> state" where
  "createEntry rp currentVersion st =
     (Inr (), updateVersion rp currentVersion
        (log DEBUG (''No previous release found for '' @ rp
           @ '' in database. creating entry and skipping notification'') st))"

text \<open>
  \<open>processRepoLine\<close> from the selected release on. \<open>!lastVersion\<close> holds when the
  repository has no entry and when its entry is the empty string.
\<close>

definition trackRelease :: "deps \<Rightarrow> string \<Rightarrow> release \<Rightarrow> state \<Rightarrow> (error + unit) \<times> state" where
  "trackRelease d rp r st =
     (let currentVersion = sanitizeVersion (tag_name r) in
      case map_of (releases st) rp of
        None \<Rightarrow> createEntry rp currentVersion st
      | Some lastVersion \<Rightarrow>
          if lastVersion = [] then createEntry rp currentVersion st
          else if \<not> validate d lastVersion \<or> \<not> validate d currentVersion then
            (Inr (), log ERROR (''Unable to parse versions for '' @ rp @ ''. '' @ lastVersion
               @ '' - last version '' @ currentVersion @ '' - current version'') st)
          else
            (let compareResult = compareVersions d lastVersion currentVersion in
             if compareResult = -1 then notifyRelease d rp r currentVersion st
             else if compareResult = 1 then
               (Inr (), updateVersion rp currentVersion
                  (log INFO (''Version downgrade on remote repository '' @ rp @ '' from ''
                     @ lastVersion @ '' to '' @ currentVersion
                     @ ''. Updating local database to reflect'') st))
             else
               (Inr (), log DEBUG (''Found no increase in version from '' @ lastVersion
                  @ '' to '' @ currentVersion @ '' for '' @ rp) st)))"

definition processRepoLine :: "deps \<Rightarrow> string \<Rightarrow> state \<Rightarrow> (error + unit) \<times> state" where
  "processRepoLine d line st =
     (case repo (parseLine d line) of
        None \<Rightarrow> (Inr (), log DEBUG (''Skipping commented repo line: '' @ line) st)
      | Some rp \<Rightarrow>
          if rp = [] then (Inr (), log DEBUG (''Skipping commented repo line: '' @ line) st)
          else
            (let bt = beta (parseLine d line);
                 st1 = log DEBUG (''Processing '' @ rp @ '' - beta: '' @ show_bool bt) st
             in case fetchReleases d rp st1 of
                  (Inl err, st2) \<Rightarrow> (Inl err, st2)
                | (Inr None, st2) \<Rightarrow> (Inl (TypeError ''find''), st2)
                | (Inr (Some rs), st2) \<Rightarrow>
                    (case latestRelease rs bt of
                       None \<Rightarrow>
                         (Inr (), log INFO (''No release found for '' @ rp @ '' - beta: ''
                            @ show_bool bt) st2)
                     | Some r \<Rightarrow> trackRelease d rp r st2)))"

text \<open>The loop of \<open>checkReleases\<close>: a rejection of \<open>processRepoLine\<close> is caught and logged.\<close>

fun processLines :: "deps \<Rightarrow> string list \<Rightarrow> state \<Rightarrow> state" where
  "processLines d [] st = st"
| "processLines d (line # ls) st =
     (case processRepoLine d line st of
        (Inl err, st1) \<Rightarrow> processLines d ls (log_error (''Failed to process line '' @ line) err st1)
      | (Inr _, st1) \<Rightarrow> processLines d ls st1)"

text \<open>One sweep; it ends with \<open>setTimeout(checkReleases, ms(CHECK_INTERVAL))\<close>.\<close>

definition checkReleases :: "deps \<Rightarrow> state \<Rightarrow> state" where
  "checkReleases d st =
     (let st1 = log INFO ''Performing release check'' st;
          st2 = (case loadRepoLines d of
                   Inl err \<Rightarrow> log_error [] err st1
                 | Inr repoLines \<Rightarrow>
                     processLines d repoLines
                       (log INFO (''Found '' @ show_nat (length repoLines) @ '' repos to check...'') st1))
      in st2\<lparr>timers := timers st2 @ [checkInterval d]\<rparr>)"

text \<open>
  The sweeps that follow one another, each with the outside world as it is then: the first
  is called when the program starts, each of the others by the timer that the sweep before
  it has set. The runtime of the image, Node 22 (\<open>FROM node:22-slim\<close>), ends the
  process when a promise is rejected and nothing handles it, and the timer of a process
  that has ended does not fire. The rejection reaches the runtime after the request has
  failed, when the program waits: for an answer later in the sweep, or for the timer. Here
  it is the timer, as it is whenever no request follows in the sweep: the sweep in which a
  promise is rejected unhandled runs to its end, and no sweep follows it.
\<close>

fun sweeps :: "deps list \<Rightarrow> state \<Rightarrow> state" where
  "sweeps [] st = st"
| "sweeps (d # ds) st =
     (let st1 = checkReleases d st
      in if unhandled st1 = unhandled st then sweeps ds st1 else st1)"

section \<open>Paths of \<open>processRepoLine\<close>\<close>

text \<open>
  The runs of \<open>processRepoLine\<close> that reach the normalisation of a tag: the line is no
  comment, its repository id \<open>rp\<close> is not empty, the request for the releases succeeds
  and \<open>r\<close> is the release selected.
\<close>

definition selects :: "deps \<Rightarrow> string \<Rightarrow> string \<Rightarrow> release \<Rightarrow> bool" where
  "selects d line rp r =
     (repo (parseLine d line) = Some rp \<and> rp \<noteq> []
      \<and> (case github d (''https://api.github.com/repos/'' @ rp @ ''/releases'') of
            Data rs \<Rightarrow> latestRelease rs (beta (parseLine d line)) = Some r
          | Status code \<Rightarrow> False
          | NoResponse \<Rightarrow> False))"

text \<open>The call of the logger in the branch taken when \<open>!lastVersion\<close> holds.\<close>

definition first_seen_entry :: "string \<Rightarrow> level \<times> string \<times> error option" where
  "first_seen_entry rp =
     (DEBUG, ''No previous release found for '' @ rp
        @ '' in database. creating entry and skipping notification'', None)"

section \<open>The words of the specification\<close>

text \<open>
  A release the selector may return at once: not a draft, and either not a prerelease or
  allowed because the beta flag is true.
\<close>

definition eligible :: "bool \<Rightarrow> release \<Rightarrow> bool" where
  "eligible bt r = (\<not> draft r \<and> (\<not> prerelease r \<or> bt))"

text \<open>
  A dotted numeric sequence: two or more runs of digits, none of them empty, joined by
  dots.
\<close>

definition dotted_numeric :: "string \<Rightarrow> bool" where
  "dotted_numeric m =
     (2 \<le> length (split CHR ''.'' m)
      \<and> (\<forall>p\<in>set (split CHR ''.'' m). p \<noteq> [] \<and> (\<forall>c\<in>set p. digit c)))"

section \<open>Sample inputs\<close>

text \<open>
  A stand-in for \<open>validate\<close> and \<open>compareVersions\<close> of the package
  \<open>compare-versions\<close>, to run the program on the versions of the examples: a normalised
  version is valid and the empty string is not; versions compare by their numbers from
  left to right. The theorems hold for every \<open>validate\<close> and \<open>compareVersions\<close>.
\<close>

definition digit_value :: "char \<Rightarrow> nat" where
  "digit_value c = length (takeWhile (\<lambda>x. x \<noteq> c) ''0123456789'')"

definition version_numbers :: "string \<Rightarrow> nat list" where
  "version_numbers v =
     map (foldl (\<lambda>n c. 10 * n + digit_value c) 0)
       (split CHR ''.'' (dropWhile (\<lambda>c. c = CHR ''v'') v))"

fun compare_numbers :: "nat list \<Rightarrow> nat list \<Rightarrow> int" where
  "compare_numbers [] [] = 0"
| "compare_numbers (x # xs) [] = (if 0 < x then 1 else compare_numbers xs [])"
| "compare_numbers [] (y # ys) = (if 0 < y then - 1 else compare_numbers [] ys)"
| "compare_numbers (x # xs) (y # ys) =
     (if x < y then - 1 else if y < x then 1 else compare_numbers xs ys)"

definition sample_validate :: "string \<Rightarrow> bool" where
  "sample_validate v = (v \<noteq> [] \<and> sanitizeVersion v = v)"

definition sample_compareVersions :: "string \<Rightarrow> string \<Rightarrow> int" where
  "sample_compareVersions a b = compare_numbers (version_numbers a) (version_numbers b)"

text \<open>
  A stand-in for \<open>String.prototype.toLowerCase\<close>, to run the program on the lines of
  the examples: it maps the capital letters of ASCII and the Kelvin sign U+212A, whose
  lower case is \<open>k\<close>, and leaves every other byte as it is. The theorems hold for every
  \<open>toLowerCase\<close>.
\<close>

definition lower_char :: "char \<Rightarrow> char" where
  "lower_char c = (case map_of (zip upper_letters lower_letters) c of Some l \<Rightarrow> l | None \<Rightarrow> c)"

fun sample_toLowerCase :: "string \<Rightarrow> string" where
  "sample_toLowerCase (a # b # c # s) =
     (if [a, b, c] = [CHR 0xE2, CHR 0x84, CHR 0xAA] then CHR ''k'' # sample_toLowerCase s
      else lower_char a # sample_toLowerCase (b # c # s))"
| "sample_toLowerCase (a # s) = lower_char a # sample_toLowerCase s"
| "sample_toLowerCase [] = []"

text \<open>A hosting API that knows the listed URLs and answers 404 to any other.\<close>

definition sample_github :: "(string \<times> response) list \<Rightarrow> string \<Rightarrow> response" where
  "sample_github api url = (case map_of api url of Some r \<Rightarrow> r | None \<Rightarrow> Status 404)"

text \<open>
  An outside world: the texts of the examples hold no emoji shortcode, so \<open>emojify\<close>
  returns them as they are; a date is printed as it is received; the gateway accepts every
  request; the interval is one hour.
\<close>

definition world :: "(string \<times> response) list \<Rightarrow> string option \<Rightarrow> deps" where
  "world api file =
     \<lparr>toLowerCase = sample_toLowerCase, emojify = id, validate = sample_validate, compareVersions = sample_compareVersions,
      toLocaleString = id, github = sample_github api, ntfy = (\<lambda>n. True),
      repoFile = file, checkInterval = 3600000\<rparr>"

text \<open>The same world with a gateway that rejects every request.\<close>

definition gateway_down :: "deps \<Rightarrow> deps" where
  "gateway_down d = d\<lparr>ntfy := (\<lambda>n. False)\<rparr>"

definition sample_release :: "string \<Rightarrow> bool \<Rightarrow> bool \<Rightarrow> release" where
  "sample_release tag dr pr =
     \<lparr>tag_name = tag, name = Some tag, published_at = ''2024-01-01T00:00:00Z'',
      html_url = ''https://github.com/acme/widget/releases/tag/'' @ tag,
      body = None, draft = dr, prerelease = pr\<rparr>"

text \<open>The hosting API with one release of \<open>acme/widget\<close>, published under the given tag.\<close>

definition widget_api :: "string \<Rightarrow> (string \<times> response) list" where
  "widget_api tag =
     [(''https://api.github.com/repos/acme/widget/releases'',
       Data [sample_release tag False False])]"

text \<open>The state after start-up with no store file: \<open>{ releases: {} }\<close>.\<close>

definition initial_state :: state where
  "initial_state = \<lparr>releases = [], posted = [], logged = [], timers = [], unhandled = []\<rparr>"

text \<open>A line of release notes that is the URL of an issue, and the line after the rewriting.\<close>

definition issue_line :: string where
  "issue_line = ''https://github.com/acme/widget/issues/42\<newline>''"

definition issue_line_linked :: string where
  "issue_line_linked = ''[#42](https://github.com/acme/widget/issues/42)\<newline>''"

text \<open>A release of \<open>acme/widget\<close> whose notes are \<open>n\<close> such lines, and a hosting API with it.\<close>

definition changelog_release :: "nat \<Rightarrow> release" where
  "changelog_release n =
     \<lparr>tag_name = ''v1.1.0'', name = Some ''v1.1.0'', published_at = ''2024-01-01T00:00:00Z'',
      html_url = ''https://github.com/acme/widget/releases/tag/v1.1.0'',
      body = Some (concat (replicate n issue_line)), draft = False, prerelease = False\<rparr>"

definition changelog_api :: "nat \<Rightarrow> (string \<times> response) list" where
  "changelog_api n =
     [(''https://api.github.com/repos/acme/widget/releases'', Data [changelog_release n])]"

text \<open>The header block of the notification for that release.\<close>

definition widget_header :: string where
  "widget_header = ''**v1.1.0**\<newline>Repo: [acme/widget](https://github.com/acme/widget/releases/tag/v1.1.0)\<newline>Version: v1.1.0\<newline>Published: 2024-01-01T00:00:00Z\<newline>\<newline>''"

text \<open>A release of \<open>acme/widget\<close> with a name of 3900 bytes.\<close>

definition long_name_release :: release where
  "long_name_release =
     (sample_release ''v1.1.0'' False False)\<lparr>name := Some (replicate 3900 CHR ''x'')\<rparr>"

section \<open>Release selection\<close>

lemma find_append_first:
  "\<forall>y\<in>set pre. \<not> P y \<Longrightarrow> P x \<Longrightarrow> find P (pre @ x # post) = Some x"
  by (induction pre) auto

lemma find_none: "\<forall>y\<in>set xs. \<not> P y \<Longrightarrow> find P xs = None"
  by (induction xs) auto

lemma latestRelease_eligible:
  "latestRelease rs bt =
     (case find (eligible bt) rs of Some r \<Rightarrow> Some r | None \<Rightarrow> find (\<lambda>r. \<not> draft r) rs)"
proof -
  have "(\<lambda>r. if draft r then False else if \<not> bt \<and> prerelease r then False else True) = eligible bt"
    by (auto simp: eligible_def fun_eq_iff)
  then show ?thesis by (simp add: latestRelease_def)
qed

text \<open>
  C4. The selector returns the first release, in the order supplied, that is not a draft
  and is either not a prerelease or allowed by the beta flag; when no release is such, the
  first release that is not a draft; when every release is a draft, none.
\<close>

theorem latestRelease_policy:
  "((\<forall>x\<in>set pre. \<not> eligible bt x) \<and> eligible bt r
      \<longrightarrow> latestRelease (pre @ r # post) bt = Some r)
   \<and> ((\<forall>x\<in>set (pre @ r # post). \<not> eligible bt x) \<and> (\<forall>x\<in>set pre. draft x) \<and> \<not> draft r
      \<longrightarrow> latestRelease (pre @ r # post) bt = Some r)
   \<and> ((\<forall>x\<in>set rs. draft x) \<longrightarrow> latestRelease rs bt = None)"
proof (intro conjI impI)
  assume "(\<forall>x\<in>set pre. \<not> eligible bt x) \<and> eligible bt r"
  then have "find (eligible bt) (pre @ r # post) = Some r"
    by (simp add: find_append_first)
  then show "latestRelease (pre @ r # post) bt = Some r"
    by (simp add: latestRelease_eligible)
next
  assume a: "(\<forall>x\<in>set (pre @ r # post). \<not> eligible bt x) \<and> (\<forall>x\<in>set pre. draft x) \<and> \<not> draft r"
  then have "find (eligible bt) (pre @ r # post) = None"
    by (intro find_none) blast
  moreover from a have "find (\<lambda>r. \<not> draft r) (pre @ r # post) = Some r"
    by (intro find_append_first) auto
  ultimately show "latestRelease (pre @ r # post) bt = Some r"
    by (simp add: latestRelease_eligible)
next
  assume a: "\<forall>x\<in>set rs. draft x"
  then have "find (eligible bt) rs = None"
    by (intro find_none) (simp add: eligible_def)
  moreover from a have "find (\<lambda>r. \<not> draft r) rs = None"
    by (intro find_none) simp
  ultimately show "latestRelease rs bt = None"
    by (simp add: latestRelease_eligible)
qed

theorem latestRelease_policy_witness:
  "latestRelease
     [sample_release ''v3.0.0'' True False, sample_release ''v2.0.0-rc.1'' False True,
      sample_release ''v1.0.0'' False False] False
     = Some (sample_release ''v1.0.0'' False False)
   \<and> latestRelease
       [sample_release ''v3.0.0'' True False, sample_release ''v2.0.0-rc.1'' False True] False
     = Some (sample_release ''v2.0.0-rc.1'' False True)
   \<and> latestRelease [sample_release ''v3.0.0'' True False] False = None"
  using
    latestRelease_policy [of
      "[sample_release ''v3.0.0'' True False, sample_release ''v2.0.0-rc.1'' False True]"
      False "sample_release ''v1.0.0'' False False" "[]" "[]"]
    latestRelease_policy [of
      "[sample_release ''v3.0.0'' True False]"
      False "sample_release ''v2.0.0-rc.1'' False True" "[]"
      "[sample_release ''v3.0.0'' True False]"]
    latestRelease_policy [of
      "[]" False "sample_release ''v1.0.0'' False False" "[]"
      "[sample_release ''v3.0.0'' True False]"]
  by (simp add: eligible_def sample_release_def)

section \<open>What each step does to the state\<close>

lemma log_fields [simp]:
  "releases (log l m st) = releases st"
  "posted (log l m st) = posted st"
  "timers (log l m st) = timers st"
  "unhandled (log l m st) = unhandled st"
  "logged (log l m st) = logged st @ [(l, m, None)]"
  by (simp_all add: log_def)

lemma log_error_fields [simp]:
  "releases (log_error m e st) = releases st"
  "posted (log_error m e st) = posted st"
  "timers (log_error m e st) = timers st"
  "unhandled (log_error m e st) = unhandled st"
  "logged (log_error m e st) = logged st @ [(ERROR, m, Some e)]"
  by (simp_all add: log_error_def)

lemma updateVersion_fields [simp]:
  "releases (updateVersion rp v st) = AList.update rp v (releases st)"
  "posted (updateVersion rp v st) = posted st"
  "timers (updateVersion rp v st) = timers st"
  "unhandled (updateVersion rp v st) = unhandled st"
  "logged (updateVersion rp v st) = logged st"
  by (simp_all add: updateVersion_def)

lemma sendNtfy_fields [simp]:
  "releases (snd (sendNtfy d t g m st)) = releases st"
  "posted (snd (sendNtfy d t g m st))
     = posted st @ [\<lparr>title = t, tags = g, payload = githubMarkdown d m\<rparr>]"
  "timers (snd (sendNtfy d t g m st)) = timers st"
  "unhandled (snd (sendNtfy d t g m st)) = unhandled st"
  "logged (snd (sendNtfy d t g m st)) = logged st"
  by (simp_all add: sendNtfy_def Let_def)

lemma notifyRelease_fields:
  "releases (snd (notifyRelease d rp r v st)) = AList.update rp v (releases st)"
  "posted (snd (notifyRelease d rp r v st))
     = posted st @
       [\<lparr>title = ''New release available for '' @ repo_name rp @ ''!'', tags = ''loudspeaker'',
         payload = githubMarkdown d (headers d rp r v
           @ fst (trunkateReleaseBody (emojify d (releaseBody r)) (html_url r)
                   (MAX_MESSAGE_BYTES - byteLength (headers d rp r v)) st))\<rparr>]"
  "timers (snd (notifyRelease d rp r v st)) = timers st"
  by (simp_all add: notifyRelease_def Let_def split_beta trunkateReleaseBody_def)

lemma fetchReleases_Data:
  "github d (''https://api.github.com/repos/'' @ rp @ ''/releases'') = Data rs
   \<Longrightarrow> fetchReleases d rp st = (Inr (Some rs), st)"
  by (simp add: fetchReleases_def)

lemma parseLine_deps [simp]:
  "parseLine (d\<lparr>compareVersions := f\<rparr>) line = parseLine d line"
  "parseLine (d\<lparr>validate := v\<rparr>) line = parseLine d line"
  "parseLine (d\<lparr>github := g\<rparr>) line = parseLine d line"
  by (simp_all add: parseLine_def)

lemma selects_deps [simp]:
  "selects (d\<lparr>compareVersions := f\<rparr>) line rp r = selects d line rp r"
  "selects (d\<lparr>validate := v\<rparr>) line rp r = selects d line rp r"
  by (simp_all add: selects_def split: response.splits)

lemma processRepoLine_selects:
  assumes "selects d line rp r"
  shows "processRepoLine d line st
           = trackRelease d rp r
               (log DEBUG (''Processing '' @ rp @ '' - beta: '' @ show_bool (beta (parseLine d line))) st)"
proof -
  from assms obtain rs where
    p: "repo (parseLine d line) = Some rp" "rp \<noteq> []"
    and g: "github d (''https://api.github.com/repos/'' @ rp @ ''/releases'') = Data rs"
    and l: "latestRelease rs (beta (parseLine d line)) = Some r"
    by (auto simp: selects_def split: response.splits)
  show ?thesis
    by (simp add: processRepoLine_def p fetchReleases_Data [OF g] l Let_def)
qed

lemma trackRelease_first_seen:
  assumes "map_of (releases st) rp = None \<or> map_of (releases st) rp = Some []"
  shows "trackRelease d rp r st = createEntry rp (sanitizeVersion (tag_name r)) st"
  using assms by (auto simp: trackRelease_def Let_def)

lemma trackRelease_invalid:
  assumes "map_of (releases st) rp = Some lastVersion" "lastVersion \<noteq> []"
    and "\<not> validate d lastVersion \<or> \<not> validate d (sanitizeVersion (tag_name r))"
  shows "trackRelease d rp r st =
           (Inr (), log ERROR (''Unable to parse versions for '' @ rp @ ''. '' @ lastVersion
              @ '' - last version '' @ sanitizeVersion (tag_name r) @ '' - current version'') st)"
  using assms by (auto simp: trackRelease_def Let_def)

lemma trackRelease_compared:
  assumes "map_of (releases st) rp = Some lastVersion" "lastVersion \<noteq> []"
    and "validate d lastVersion" "validate d (sanitizeVersion (tag_name r))"
  shows "trackRelease d rp r st =
           (let currentVersion = sanitizeVersion (tag_name r);
                compareResult = compareVersions d lastVersion currentVersion
            in if compareResult = -1 then notifyRelease d rp r currentVersion st
               else if compareResult = 1 then
                 (Inr (), updateVersion rp currentVersion
                    (log INFO (''Version downgrade on remote repository '' @ rp @ '' from ''
                       @ lastVersion @ '' to '' @ currentVersion
                       @ ''. Updating local database to reflect'') st))
               else
                 (Inr (), log DEBUG (''Found no increase in version from '' @ lastVersion
                    @ '' to '' @ currentVersion @ '' for '' @ rp) st))"
  using assms by (simp add: trackRelease_def Let_def)

lemma processRepoLine_first_seen:
  assumes "selects d line rp r"
    and "map_of (releases st) rp = None \<or> map_of (releases st) rp = Some []"
  shows "processRepoLine d line st =
           (Inr (), st\<lparr>releases := AList.update rp (sanitizeVersion (tag_name r)) (releases st),
                        logged := logged st @
                          [(DEBUG, ''Processing '' @ rp @ '' - beta: ''
                              @ show_bool (beta (parseLine d line)), None),
                           first_seen_entry rp]\<rparr>)"
proof -
  let ?st1 = "log DEBUG (''Processing '' @ rp @ '' - beta: '' @ show_bool (beta (parseLine d line))) st"
  from assms(2) have "map_of (releases ?st1) rp = None \<or> map_of (releases ?st1) rp = Some []"
    by simp
  then have "trackRelease d rp r ?st1 = createEntry rp (sanitizeVersion (tag_name r)) ?st1"
    by (rule trackRelease_first_seen)
  then show ?thesis
    by (simp add: processRepoLine_selects [OF assms(1)] createEntry_def updateVersion_def log_def
        first_seen_entry_def)
qed

lemma parseLine_world: "parseLine (world api fl) line = parseLine (world [] None) line"
  by (simp add: parseLine_def world_def)

lemma parseLine_widget:
  "parseLine (world api fl) ''acme/widget'' = \<lparr>repo = Some ''acme/widget'', beta = False\<rparr>"
proof -
  have "parseLine (world [] None) ''acme/widget'' = \<lparr>repo = Some ''acme/widget'', beta = False\<rparr>"
    by code_simp
  then show ?thesis by (simp add: parseLine_world [of api fl])
qed

lemma selects_widget:
  "selects (world (widget_api tag) fl) ''acme/widget'' ''acme/widget'' (sample_release tag False False)"
proof -
  note parseLine_widget [of "widget_api tag" fl]
  then show ?thesis
    by (simp add: selects_def world_def widget_api_def sample_github_def latestRelease_def
        sample_release_def)
qed

section \<open>Tracking of versions\<close>

text \<open>
  C5. For every entry for which a release is selected: when no version is stored for the
  repository, the normalised version is stored and no notification is sent; when a
  version is stored and both versions are valid, a notification is sent if and only if
  the comparison yields NEWER (\<open>-1\<close>); on NEWER and on OLDER (\<open>1\<close>) the store is updated
  to the observed version, on OLDER with no notification; on SAME neither the store nor
  the notifier is touched. That the empty string is no valid version is a fact of the
  package \<open>compare-versions\<close>.
\<close>

theorem processRepoLine_tracking:
  fixes st :: state
  assumes sel: "selects d line rp r"
    and empty_invalid: "\<not> validate d []"
    and cur: "cur = sanitizeVersion (tag_name r)"
    and st': "st' = snd (processRepoLine d line st)"
  shows "(map_of (releases st) rp = None
            \<longrightarrow> releases st' = AList.update rp cur (releases st) \<and> posted st' = posted st)
       \<and> (map_of (releases st) rp = Some lastVersion \<and> validate d lastVersion \<and> validate d cur
            \<longrightarrow> (posted st' \<noteq> posted st \<longleftrightarrow> compareVersions d lastVersion cur = -1)
              \<and> (compareVersions d lastVersion cur = -1
                    \<longrightarrow> releases st' = AList.update rp cur (releases st)
                      \<and> (\<exists>n. posted st' = posted st @ [n] \<and> tags n = ''loudspeaker''
                            \<and> title n = ''New release available for '' @ repo_name rp @ ''!''))
              \<and> (compareVersions d lastVersion cur = 1
                    \<longrightarrow> releases st' = AList.update rp cur (releases st) \<and> posted st' = posted st)
              \<and> (compareVersions d lastVersion cur \<noteq> -1 \<and> compareVersions d lastVersion cur \<noteq> 1
                    \<longrightarrow> releases st' = releases st \<and> posted st' = posted st))"
proof -
  let ?st1 = "log DEBUG (''Processing '' @ rp @ '' - beta: '' @ show_bool (beta (parseLine d line))) st"
  have run: "st' = snd (trackRelease d rp r ?st1)"
    unfolding st' by (simp add: processRepoLine_selects [OF sel])
  have first: "releases st' = AList.update rp cur (releases st) \<and> posted st' = posted st"
    if "map_of (releases st) rp = None"
  proof -
    from that have "trackRelease d rp r ?st1 = createEntry rp cur ?st1"
      unfolding cur by (intro trackRelease_first_seen) simp
    with run show ?thesis by (simp add: createEntry_def)
  qed
  have later: "(posted st' \<noteq> posted st \<longleftrightarrow> compareVersions d lastVersion cur = -1)
              \<and> (compareVersions d lastVersion cur = -1
                    \<longrightarrow> releases st' = AList.update rp cur (releases st)
                      \<and> (\<exists>n. posted st' = posted st @ [n] \<and> tags n = ''loudspeaker''
                            \<and> title n = ''New release available for '' @ repo_name rp @ ''!''))
              \<and> (compareVersions d lastVersion cur = 1
                    \<longrightarrow> releases st' = AList.update rp cur (releases st) \<and> posted st' = posted st)
              \<and> (compareVersions d lastVersion cur \<noteq> -1 \<and> compareVersions d lastVersion cur \<noteq> 1
                    \<longrightarrow> releases st' = releases st \<and> posted st' = posted st)"
    if a: "map_of (releases st) rp = Some lastVersion \<and> validate d lastVersion \<and> validate d cur"
  proof -
    from a empty_invalid have ne: "lastVersion \<noteq> []" by auto
    have "trackRelease d rp r ?st1 =
           (let currentVersion = sanitizeVersion (tag_name r);
                compareResult = compareVersions d lastVersion currentVersion
            in if compareResult = -1 then notifyRelease d rp r currentVersion ?st1
               else if compareResult = 1 then
                 (Inr (), updateVersion rp currentVersion
                    (log INFO (''Version downgrade on remote repository '' @ rp @ '' from ''
                       @ lastVersion @ '' to '' @ currentVersion
                       @ ''. Updating local database to reflect'') ?st1))
               else
                 (Inr (), log DEBUG (''Found no increase in version from '' @ lastVersion
                    @ '' to '' @ currentVersion @ '' for '' @ rp) ?st1))"
      using a ne unfolding cur by (intro trackRelease_compared) simp_all
    then show ?thesis
      unfolding run cur by (simp add: Let_def notifyRelease_fields)
  qed
  from first later show ?thesis by blast
qed

theorem processRepoLine_tracking_witness:
  "releases (snd (processRepoLine (world (widget_api ''v1.0.0'') None) ''acme/widget'' initial_state))
     = [(''acme/widget'', ''v1.0.0'')]
   \<and> posted (snd (processRepoLine (world (widget_api ''v1.0.0'') None) ''acme/widget'' initial_state)) = []
   \<and> releases (snd (processRepoLine (world (widget_api ''v1.1.0'') None) ''acme/widget''
        (initial_state\<lparr>releases := [(''acme/widget'', ''v1.0.0'')]\<rparr>)))
     = [(''acme/widget'', ''v1.1.0'')]
   \<and> length (posted (snd (processRepoLine (world (widget_api ''v1.1.0'') None) ''acme/widget''
        (initial_state\<lparr>releases := [(''acme/widget'', ''v1.0.0'')]\<rparr>)))) = 1
   \<and> releases (snd (processRepoLine (world (widget_api ''v1.9.0'') None) ''acme/widget''
        (initial_state\<lparr>releases := [(''acme/widget'', ''v2.0.0'')]\<rparr>)))
     = [(''acme/widget'', ''v1.9.0'')]
   \<and> posted (snd (processRepoLine (world (widget_api ''v1.9.0'') None) ''acme/widget''
        (initial_state\<lparr>releases := [(''acme/widget'', ''v2.0.0'')]\<rparr>))) = []
   \<and> releases (snd (processRepoLine (world (widget_api ''1.0.0'') None) ''acme/widget''
        (initial_state\<lparr>releases := [(''acme/widget'', ''v1.0.0'')]\<rparr>)))
     = [(''acme/widget'', ''v1.0.0'')]
   \<and> posted (snd (processRepoLine (world (widget_api ''1.0.0'') None) ''acme/widget''
        (initial_state\<lparr>releases := [(''acme/widget'', ''v1.0.0'')]\<rparr>))) = []"
proof -
  have inv: "\<not> validate (world api fl) []" for api fl
    by (simp add: world_def sample_validate_def)
  have v: "validate (world api fl) ''v1.0.0''" "validate (world api fl) ''v1.1.0''"
    "validate (world api fl) ''v1.9.0''" "validate (world api fl) ''v2.0.0''" for api fl
    unfolding world_def by (simp, code_simp)+
  have s: "sanitizeVersion (tag_name (sample_release ''v1.0.0'' False False)) = ''v1.0.0''"
    "sanitizeVersion (tag_name (sample_release ''v1.1.0'' False False)) = ''v1.1.0''"
    "sanitizeVersion (tag_name (sample_release ''v1.9.0'' False False)) = ''v1.9.0''"
    "sanitizeVersion (tag_name (sample_release ''1.0.0'' False False)) = ''v1.0.0''"
    by code_simp+
  have c: "compareVersions (world api fl) ''v1.0.0'' ''v1.1.0'' = -1"
    "compareVersions (world api fl) ''v2.0.0'' ''v1.9.0'' = 1"
    "compareVersions (world api fl) ''v1.0.0'' ''v1.0.0'' = 0" for api fl
    unfolding world_def by (simp, code_simp)+
  show ?thesis
    using
      processRepoLine_tracking [OF selects_widget [of "''v1.0.0''" None] inv refl refl,
        where st = initial_state and lastVersion = "''v1.0.0''"]
      processRepoLine_tracking [OF selects_widget [of "''v1.1.0''" None] inv refl refl,
        where lastVersion = "''v1.0.0''"
          and st = "initial_state\<lparr>releases := [(''acme/widget'', ''v1.0.0'')]\<rparr>"]
      processRepoLine_tracking [OF selects_widget [of "''v1.9.0''" None] inv refl refl,
        where lastVersion = "''v2.0.0''"
          and st = "initial_state\<lparr>releases := [(''acme/widget'', ''v2.0.0'')]\<rparr>"]
      processRepoLine_tracking [OF selects_widget [of "''1.0.0''" None] inv refl refl,
        where lastVersion = "''v1.0.0''"
          and st = "initial_state\<lparr>releases := [(''acme/widget'', ''v1.0.0'')]\<rparr>"]
    by (auto simp add: s v c initial_state_def)
qed

section \<open>Versions that are not valid\<close>

text \<open>
  C6, as the program has it. For every entry for which a release is selected and whose
  stored version is not the empty string: if the stored version or the normalised new
  version fails validation, the comparison is skipped (the run is the same whatever
  \<open>compareVersions\<close> is), an error is logged and the state is otherwise unchanged, so
  the store is not written.
\<close>

theorem processRepoLine_invalid_version:
  assumes "selects d line rp r"
    and "map_of (releases st) rp = Some lastVersion" and "lastVersion \<noteq> []"
    and "\<not> validate d lastVersion \<or> \<not> validate d (sanitizeVersion (tag_name r))"
  shows "processRepoLine d line st =
           (Inr (), st\<lparr>logged := logged st @
              [(DEBUG, ''Processing '' @ rp @ '' - beta: '' @ show_bool (beta (parseLine d line)), None),
               (ERROR, ''Unable to parse versions for '' @ rp @ ''. '' @ lastVersion
                  @ '' - last version '' @ sanitizeVersion (tag_name r) @ '' - current version'', None)]\<rparr>)
         \<and> processRepoLine (d\<lparr>compareVersions := f\<rparr>) line st = processRepoLine d line st"
proof -
  let ?st1 = "log DEBUG (''Processing '' @ rp @ '' - beta: '' @ show_bool (beta (parseLine d line))) st"
  have m: "map_of (releases ?st1) rp = Some lastVersion" using assms(2) by simp
  have "trackRelease d' rp r ?st1 =
           (Inr (), log ERROR (''Unable to parse versions for '' @ rp @ ''. '' @ lastVersion
              @ '' - last version '' @ sanitizeVersion (tag_name r) @ '' - current version'') ?st1)"
    if "validate d' = validate d" for d'
    using m assms(3,4) that by (intro trackRelease_invalid) simp_all
  from this [of d] this [of "d\<lparr>compareVersions := f\<rparr>"] show ?thesis
    using assms(1) by (simp add: processRepoLine_selects log_def)
qed

theorem processRepoLine_invalid_version_witness:
  "map_of (releases (initial_state\<lparr>releases := [(''acme/widget'', ''v1.0.5'')]\<rparr>)) ''acme/widget''
     = Some ''v1.0.5''
   \<and> \<not> validate (world (widget_api ''nightly'') None)
          (sanitizeVersion (tag_name (sample_release ''nightly'' False False)))
   \<and> processRepoLine (world (widget_api ''nightly'') None) ''acme/widget''
        (initial_state\<lparr>releases := [(''acme/widget'', ''v1.0.5'')]\<rparr>)
     = (Inr (), initial_state
          \<lparr>releases := [(''acme/widget'', ''v1.0.5'')],
           logged := [(DEBUG, ''Processing acme/widget - beta: false'', None),
                      (ERROR, ''Unable to parse versions for acme/widget. v1.0.5 - last version  - current version'', None)]\<rparr>)"
proof -
  have m: "map_of (releases (initial_state\<lparr>releases := [(''acme/widget'', ''v1.0.5'')]\<rparr>)) ''acme/widget''
             = Some ''v1.0.5''"
    by simp
  have s: "sanitizeVersion (tag_name (sample_release ''nightly'' False False)) = []"
    by code_simp
  have i: "\<not> validate (world (widget_api ''nightly'') None) ''v1.0.5''
         \<or> \<not> validate (world (widget_api ''nightly'') None)
                (sanitizeVersion (tag_name (sample_release ''nightly'' False False)))"
    unfolding s by (simp add: world_def sample_validate_def)
  have b: "beta (parseLine (world (widget_api ''nightly'') None) ''acme/widget'') = False"
    by (simp add: parseLine_widget)
  from processRepoLine_invalid_version [OF selects_widget m _ i, of "\<lambda>a b. 1"]
  show ?thesis
    by (simp add: s b [unfolded world_def] show_bool_def initial_state_def world_def
        sample_validate_def)
qed

text \<open>
  C6 as stated fails for a stored version that is the empty string: it fails validation,
  and the store is written with no error logged.
\<close>

theorem processRepoLine_invalid_version_counterexample:
  "map_of (releases (initial_state\<lparr>releases := [(''acme/widget'', [])]\<rparr>)) ''acme/widget'' = Some []
   \<and> \<not> validate (world (widget_api ''v1.0.0'') None) []
   \<and> processRepoLine (world (widget_api ''v1.0.0'') None) ''acme/widget''
        (initial_state\<lparr>releases := [(''acme/widget'', [])]\<rparr>)
     = (Inr (), initial_state
          \<lparr>releases := [(''acme/widget'', ''v1.0.0'')],
           logged := [(DEBUG, ''Processing acme/widget - beta: false'', None),
                      (DEBUG, ''No previous release found for acme/widget in database. creating entry and skipping notification'', None)]\<rparr>)"
  by code_simp

section \<open>Truncation\<close>

text \<open>
  C2, as the program has it. Whenever the byte length of the body passed to
  \<open>trunkateReleaseBody\<close> exceeds \<open>maxBytes\<close>, the rendered body is the fallback
  \<open>Full release notes: [url](url)\<close>, which holds only a link to the release page; the
  fallback is 24 bytes and twice the URL long, whatever \<open>maxBytes\<close> is.
\<close>

theorem trunkateReleaseBody_fallback:
  assumes "maxBytes < byteLength bdy"
  shows "fst (trunkateReleaseBody bdy url maxBytes st)
           = ''Full release notes: ['' @ url @ '']('' @ url @ '')''
       \<and> byteLength (fst (trunkateReleaseBody bdy url maxBytes st)) = 24 + 2 * byteLength url"
  using assms by (simp add: trunkateReleaseBody_def byteLength_def)

theorem trunkateReleaseBody_fallback_witness:
  "(100 :: int) < byteLength (concat (replicate 8 ''- fix a crash on start\<newline>''))
   \<and> fst (trunkateReleaseBody (concat (replicate 8 ''- fix a crash on start\<newline>''))
            ''https://github.com/acme/widget/releases/tag/v1.0.0'' 100 initial_state)
       = ''Full release notes: [https://github.com/acme/widget/releases/tag/v1.0.0](https://github.com/acme/widget/releases/tag/v1.0.0)''
   \<and> byteLength (fst (trunkateReleaseBody (concat (replicate 8 ''- fix a crash on start\<newline>''))
            ''https://github.com/acme/widget/releases/tag/v1.0.0'' 100 initial_state)) = 124"
proof -
  have h: "(100 :: int) < byteLength (concat (replicate 8 ''- fix a crash on start\<newline>''))"
    by code_simp
  from trunkateReleaseBody_fallback [OF h,
      of "''https://github.com/acme/widget/releases/tag/v1.0.0''" initial_state] h
  show ?thesis by (simp add: byteLength_def)
qed

text \<open>
  C2 as stated fails where \<open>maxBytes\<close> is less than the length of the fallback: a body
  of 184 bytes and a budget of 100 bytes give a fallback of 124 bytes. In
  \<open>processRepoLine\<close> the budget is what the header leaves of \<open>MAX_MESSAGE_BYTES\<close>; a
  release name of 3900 bytes leaves -26 bytes, and the fallback is again 124 bytes long.
\<close>

theorem trunkateReleaseBody_fallback_counterexample:
  "(100 :: int) < byteLength (concat (replicate 8 ''- fix a crash on start\<newline>''))
   \<and> \<not> byteLength (fst (trunkateReleaseBody (concat (replicate 8 ''- fix a crash on start\<newline>''))
            ''https://github.com/acme/widget/releases/tag/v1.0.0'' 100 initial_state)) \<le> 100
   \<and> MAX_MESSAGE_BYTES
        - byteLength (headers (world [] None) ''acme/widget'' long_name_release ''v1.1.0'') = - 26
   \<and> - 26 < byteLength (emojify (world [] None) (releaseBody long_name_release))
   \<and> \<not> byteLength (fst (trunkateReleaseBody
            (emojify (world [] None) (releaseBody long_name_release))
            (html_url long_name_release) (- 26) initial_state)) \<le> - 26"
proof -
  have "(100 :: int) < byteLength (concat (replicate 8 ''- fix a crash on start\<newline>''))
   \<and> \<not> byteLength (fst (trunkateReleaseBody (concat (replicate 8 ''- fix a crash on start\<newline>''))
            ''https://github.com/acme/widget/releases/tag/v1.0.0'' 100 initial_state)) \<le> 100"
    by code_simp
  moreover have "MAX_MESSAGE_BYTES
        - byteLength (headers (world [] None) ''acme/widget'' long_name_release ''v1.1.0'') = - 26"
    by (simp add: headers_def world_def long_name_release_def sample_release_def show_null_def
        byteLength_def MAX_MESSAGE_BYTES_def)
  moreover have "- 26 < byteLength (emojify (world [] None) (releaseBody long_name_release))
   \<and> \<not> byteLength (fst (trunkateReleaseBody
            (emojify (world [] None) (releaseBody long_name_release))
            (html_url long_name_release) (- 26) initial_state)) \<le> - 26"
    by (simp add: trunkateReleaseBody_def world_def long_name_release_def sample_release_def
        releaseBody_def byteLength_def)
  ultimately show ?thesis by blast
qed

section \<open>Tags without a version\<close>

lemma checkReleases_one_line:
  assumes "loadRepoLines d = Inr [line]" and "selects d line rp r"
    and "sanitizeVersion (tag_name r) = []"
    and "map_of (releases st) rp = None \<or> map_of (releases st) rp = Some []"
  shows "checkReleases d st =
           st\<lparr>releases := AList.update rp [] (releases st),
              logged := logged st @
                [(INFO, ''Performing release check'', None),
                 (INFO, ''Found 1 repos to check...'', None),
                 (DEBUG, ''Processing '' @ rp @ '' - beta: '' @ show_bool (beta (parseLine d line)), None),
                 first_seen_entry rp],
              timers := timers st @ [checkInterval d]\<rparr>"
proof -
  let ?st1 = "log INFO (''Found 1 repos to check...'') (log INFO ''Performing release check'' st)"
  have "map_of (releases ?st1) rp = None \<or> map_of (releases ?st1) rp = Some []"
    using assms(4) by simp
  from processRepoLine_first_seen [OF assms(2) this] assms(3)
  show ?thesis
    by (simp add: checkReleases_def assms(1) Let_def show_nat.simps log_def)
qed

lemma sweeps_unparsable_tag:
  assumes "\<forall>d\<in>set ds. loadRepoLines d = Inr [line]
             \<and> (\<exists>r. selects d line rp r \<and> sanitizeVersion (tag_name r) = [])"
    and "map_of (releases st) rp = None \<or> map_of (releases st) rp = Some []"
  shows "posted (sweeps ds st) = posted st
       \<and> (ds \<noteq> [] \<longrightarrow> map_of (releases (sweeps ds st)) rp = Some [])
       \<and> length (filter (\<lambda>e. e = first_seen_entry rp) (logged (sweeps ds st)))
           = length (filter (\<lambda>e. e = first_seen_entry rp) (logged st)) + length ds
       \<and> sweeps (map (\<lambda>d. d\<lparr>validate := v\<rparr>) ds) st = sweeps ds st"
  using assms
proof (induction ds arbitrary: st)
  case Nil
  then show ?case by simp
next
  case (Cons d ds)
  from Cons.prems(1) obtain r where
    l: "loadRepoLines d = Inr [line]" and s: "selects d line rp r"
    and t: "sanitizeVersion (tag_name r) = []"
    by auto
  let ?st' = "checkReleases d st"
  note step = checkReleases_one_line [OF l s t Cons.prems(2)]
  have l': "loadRepoLines (d\<lparr>validate := v\<rparr>) = Inr [line]"
    using l by (simp add: loadRepoLines_def)
  have s': "selects (d\<lparr>validate := v\<rparr>) line rp r" using s by simp
  have same: "checkReleases (d\<lparr>validate := v\<rparr>) st = ?st'"
    unfolding step using checkReleases_one_line [OF l' s' t Cons.prems(2)] by simp
  have entry: "map_of (releases ?st') rp = Some []"
    unfolding step by (simp add: update_conv')
  have rest: "\<forall>d\<in>set ds. loadRepoLines d = Inr [line]
             \<and> (\<exists>r. selects d line rp r \<and> sanitizeVersion (tag_name r) = [])"
    using Cons.prems(1) by simp
  from entry have "map_of (releases ?st') rp = None \<or> map_of (releases ?st') rp = Some []"
    by simp
  note ih = Cons.IH [OF rest this]
  have p: "posted ?st' = posted st" unfolding step by simp
  have u: "unhandled ?st' = unhandled st" unfolding step by simp
  have c: "length (filter (\<lambda>e. e = first_seen_entry rp) (logged ?st'))
             = Suc (length (filter (\<lambda>e. e = first_seen_entry rp) (logged st)))"
    unfolding step by (simp add: first_seen_entry_def)
  have e: "map_of (releases (sweeps ds ?st')) rp = Some []"
    using ih entry by (cases ds) auto
  show ?case using ih p c e same u by (simp add: Let_def)
qed

text \<open>
  C10. Take a repository whose entry in the store is missing or empty and whose selected
  release has a tag with no dotted numeric sequence. Processing its line takes the branch
  of a repository seen for the first time: the empty string is stored, nothing is sent, and
  \<open>validate\<close> has no part in it. Over sweeps in each of which the tag selected is such,
  that branch is taken in every sweep, the entry is the empty string after each of them
  and no notification is sent.
\<close>

theorem unparsable_tag_repeats_first_seen:
  "(selects d line rp r \<and> sanitizeVersion (tag_name r) = []
      \<and> (map_of (releases st) rp = None \<or> map_of (releases st) rp = Some [])
    \<longrightarrow> processRepoLine d line st =
          (Inr (), st\<lparr>releases := AList.update rp [] (releases st),
                       logged := logged st @
                         [(DEBUG, ''Processing '' @ rp @ '' - beta: ''
                             @ show_bool (beta (parseLine d line)), None),
                          first_seen_entry rp]\<rparr>)
        \<and> processRepoLine (d\<lparr>validate := v\<rparr>) line st = processRepoLine d line st)
   \<and> ((\<forall>d\<in>set ds. loadRepoLines d = Inr [line]
            \<and> (\<exists>r. selects d line rp r \<and> sanitizeVersion (tag_name r) = []))
      \<and> (map_of (releases st) rp = None \<or> map_of (releases st) rp = Some [])
    \<longrightarrow> posted (sweeps ds st) = posted st
        \<and> (ds \<noteq> [] \<longrightarrow> map_of (releases (sweeps ds st)) rp = Some [])
        \<and> length (filter (\<lambda>e. e = first_seen_entry rp) (logged (sweeps ds st)))
            = length (filter (\<lambda>e. e = first_seen_entry rp) (logged st)) + length ds
        \<and> sweeps (map (\<lambda>d. d\<lparr>validate := v\<rparr>) ds) st = sweeps ds st)"
proof (intro conjI impI)
  assume a: "selects d line rp r \<and> sanitizeVersion (tag_name r) = []
      \<and> (map_of (releases st) rp = None \<or> map_of (releases st) rp = Some [])"
  then have sel: "selects d line rp r" "selects (d\<lparr>validate := v\<rparr>) line rp r"
    and m: "map_of (releases st) rp = None \<or> map_of (releases st) rp = Some []"
    by simp_all
  from processRepoLine_first_seen [OF sel(1) m] a
  show 1: "processRepoLine d line st =
          (Inr (), st\<lparr>releases := AList.update rp [] (releases st),
                       logged := logged st @
                         [(DEBUG, ''Processing '' @ rp @ '' - beta: ''
                             @ show_bool (beta (parseLine d line)), None),
                          first_seen_entry rp]\<rparr>)"
    by simp
  from processRepoLine_first_seen [OF sel(2) m] a
  show "processRepoLine (d\<lparr>validate := v\<rparr>) line st = processRepoLine d line st"
    unfolding 1 by simp
next
  assume a: "(\<forall>d\<in>set ds. loadRepoLines d = Inr [line]
            \<and> (\<exists>r. selects d line rp r \<and> sanitizeVersion (tag_name r) = []))
      \<and> (map_of (releases st) rp = None \<or> map_of (releases st) rp = Some [])"
  then have h: "\<forall>d\<in>set ds. loadRepoLines d = Inr [line]
            \<and> (\<exists>r. selects d line rp r \<and> sanitizeVersion (tag_name r) = [])"
    and m: "map_of (releases st) rp = None \<or> map_of (releases st) rp = Some []"
    by simp_all
  note s = sweeps_unparsable_tag [OF h m, of v]
  from s show "posted (sweeps ds st) = posted st" by simp
  from s show "map_of (releases (sweeps ds st)) rp = Some []" if "ds \<noteq> []"
    using that by simp
  from s show "length (filter (\<lambda>e. e = first_seen_entry rp) (logged (sweeps ds st)))
            = length (filter (\<lambda>e. e = first_seen_entry rp) (logged st)) + length ds"
    by simp
  from s show "sweeps (map (\<lambda>d. d\<lparr>validate := v\<rparr>) ds) st = sweeps ds st" by simp
qed

theorem unparsable_tag_repeats_first_seen_witness:
  "map_of (releases initial_state) ''acme/widget'' = None
   \<and> sanitizeVersion (tag_name (sample_release ''release'' False False)) = []
   \<and> sanitizeVersion (tag_name (sample_release ''nightly'' False False)) = []
   \<and> releases (snd (processRepoLine (world (widget_api ''release'') None) ''acme/widget''
        initial_state)) = [(''acme/widget'', [])]
   \<and> posted (sweeps [world (widget_api ''release'') (Some ''acme/widget''),
                     world (widget_api ''nightly'') (Some ''acme/widget'')] initial_state) = []
   \<and> map_of (releases (sweeps [world (widget_api ''release'') (Some ''acme/widget''),
                     world (widget_api ''nightly'') (Some ''acme/widget'')] initial_state))
        ''acme/widget'' = Some []
   \<and> length (filter (\<lambda>e. e = first_seen_entry ''acme/widget'')
        (logged (sweeps [world (widget_api ''release'') (Some ''acme/widget''),
                         world (widget_api ''nightly'') (Some ''acme/widget'')] initial_state))) = 2"
proof -
  have l: "loadRepoLines (world api (Some ''acme/widget'')) = Inr [''acme/widget'']" for api
  proof -
    have "filter (\<lambda>line. length line > 0) (map trim (split (CHR 0x0A) ''acme/widget''))
            = [''acme/widget'']"
      by code_simp
    then show ?thesis by (simp add: loadRepoLines_def world_def)
  qed
  have s: "sanitizeVersion (tag_name (sample_release ''release'' False False)) = []"
    "sanitizeVersion (tag_name (sample_release ''nightly'' False False)) = []"
    by code_simp+
  have h: "\<forall>d\<in>set [world (widget_api ''release'') (Some ''acme/widget''),
                     world (widget_api ''nightly'') (Some ''acme/widget'')].
             loadRepoLines d = Inr [''acme/widget'']
             \<and> (\<exists>r. selects d ''acme/widget'' ''acme/widget'' r \<and> sanitizeVersion (tag_name r) = [])"
    using selects_widget s l by auto
  have m: "map_of (releases initial_state) ''acme/widget'' = None
             \<or> map_of (releases initial_state) ''acme/widget'' = Some []"
    by (simp add: initial_state_def)
  note t = unparsable_tag_repeats_first_seen [where rp = "''acme/widget''"
      and line = "''acme/widget''" and st = initial_state]
  from t [where d = "world (widget_api ''release'') None"
        and r = "sample_release ''release'' False False"] selects_widget s(1) m
  have "processRepoLine (world (widget_api ''release'') None) ''acme/widget'' initial_state =
          (Inr (), initial_state\<lparr>releases := AList.update ''acme/widget'' [] (releases initial_state),
                       logged := logged initial_state @
                         [(DEBUG, ''Processing '' @ ''acme/widget'' @ '' - beta: ''
                             @ show_bool (beta (parseLine (world (widget_api ''release'') None)
                                 ''acme/widget'')), None),
                          first_seen_entry ''acme/widget'']\<rparr>)"
    by blast
  then have one: "releases (snd (processRepoLine (world (widget_api ''release'') None)
        ''acme/widget'' initial_state)) = [(''acme/widget'', [])]"
    by (simp add: initial_state_def)
  from t [where ds = "[world (widget_api ''release'') (Some ''acme/widget''),
                     world (widget_api ''nightly'') (Some ''acme/widget'')]"] h m
  have "posted (sweeps [world (widget_api ''release'') (Some ''acme/widget''),
                     world (widget_api ''nightly'') (Some ''acme/widget'')] initial_state)
          = posted initial_state
      \<and> map_of (releases (sweeps [world (widget_api ''release'') (Some ''acme/widget''),
                     world (widget_api ''nightly'') (Some ''acme/widget'')] initial_state))
          ''acme/widget'' = Some []
      \<and> length (filter (\<lambda>e. e = first_seen_entry ''acme/widget'')
          (logged (sweeps [world (widget_api ''release'') (Some ''acme/widget''),
                         world (widget_api ''nightly'') (Some ''acme/widget'')] initial_state)))
          = length (filter (\<lambda>e. e = first_seen_entry ''acme/widget'') (logged initial_state))
              + length [world (widget_api ''release'') (Some ''acme/widget''),
                     world (widget_api ''nightly'') (Some ''acme/widget'')]"
    by blast
  with one s show ?thesis by (simp add: initial_state_def)
qed

section \<open>A repository that is not found\<close>

lemma ntfy_world: "ntfy (world api fl) n"
  by (simp add: world_def)

lemma processRepoLine_not_found:
  assumes "repo (parseLine d line) = Some rp" and "rp \<noteq> []"
    and "github d (''https://api.github.com/repos/'' @ rp @ ''/releases'') = Status 404"
    and "ntfy d \<lparr>title = ''Error'', tags = ''exclamation'',
                  payload = githubMarkdown d (''Repository not found: '' @ rp)\<rparr>"
  shows "processRepoLine d line st =
           (Inl (TypeError ''find''),
            st\<lparr>posted := posted st @
                  [\<lparr>title = ''Error'', tags = ''exclamation'',
                    payload = githubMarkdown d (''Repository not found: '' @ rp)\<rparr>],
                logged := logged st @
                  [(DEBUG, ''Processing '' @ rp @ '' - beta: '' @ show_bool (beta (parseLine d line)), None),
                   (ERROR, ''Repository not found: '' @ rp, None)]\<rparr>)"
  using assms
  by (simp add: processRepoLine_def fetchReleases_def sendNtfy_def Let_def log_def)

text \<open>
  C3 at a repository that the hosting API does not know. The notification is sent, and
  then \<open>processRepoLine\<close> reads \<open>find\<close> of the \<open>undefined\<close> that \<open>fetchReleases\<close>
  has returned: it ends with a \<open>TypeError\<close>, which the sweep logs as a failed line.
\<close>

theorem not_found_raises_TypeError:
  "processRepoLine (world [] None) ''acme/missing'' initial_state
     = (Inl (TypeError ''find''),
        initial_state
          \<lparr>posted := [\<lparr>title = ''Error'', tags = ''exclamation'',
                       payload = ''Repository not found: acme/missing''\<rparr>],
           logged := [(DEBUG, ''Processing acme/missing - beta: false'', None),
                      (ERROR, ''Repository not found: acme/missing'', None)]\<rparr>)
   \<and> logged (checkReleases (world [] (Some ''acme/missing'')) initial_state)
     = [(INFO, ''Performing release check'', None),
        (INFO, ''Found 1 repos to check...'', None),
        (DEBUG, ''Processing acme/missing - beta: false'', None),
        (ERROR, ''Repository not found: acme/missing'', None),
        (ERROR, ''Failed to process line acme/missing'', Some (TypeError ''find''))]"
proof -
  have p: "parseLine (world [] None) ''acme/missing'' = \<lparr>repo = Some ''acme/missing'', beta = False\<rparr>"
    by code_simp
  have g: "github (world [] None) (''https://api.github.com/repos/'' @ ''acme/missing'' @ ''/releases'')
             = Status 404"
    by (simp add: world_def sample_github_def)
  have m: "githubMarkdown (world [] None) ''Repository not found: acme/missing''
             = ''Repository not found: acme/missing''"
    by code_simp
  from processRepoLine_not_found [OF _ _ g ntfy_world, of "''acme/missing''" initial_state]
  have "processRepoLine (world [] None) ''acme/missing'' initial_state
     = (Inl (TypeError ''find''),
        initial_state
          \<lparr>posted := [\<lparr>title = ''Error'', tags = ''exclamation'',
                       payload = ''Repository not found: acme/missing''\<rparr>],
           logged := [(DEBUG, ''Processing acme/missing - beta: false'', None),
                      (ERROR, ''Repository not found: acme/missing'', None)]\<rparr>)"
    by (simp add: p m show_bool_def initial_state_def)
  moreover have "logged (checkReleases (world [] (Some ''acme/missing'')) initial_state)
     = [(INFO, ''Performing release check'', None),
        (INFO, ''Found 1 repos to check...'', None),
        (DEBUG, ''Processing acme/missing - beta: false'', None),
        (ERROR, ''Repository not found: acme/missing'', None),
        (ERROR, ''Failed to process line acme/missing'', Some (TypeError ''find''))]"
    by code_simp
  ultimately show ?thesis by (rule conjI)
qed

section \<open>A notification that is not awaited\<close>

text \<open>
  C8 at a list whose one repository the hosting API does not know, with a gateway that
  rejects the request. \<open>fetchReleases\<close> calls \<open>sendNtfy\<close> and does not await it (the
  other call of \<open>sendNtfy\<close>, in \<open>processRepoLine\<close>, is awaited), so the rejection is
  outside the \<open>catch\<close> of the loop: the sweep logs the failed line and nothing of the
  rejected request, and the promise is rejected with nothing to handle it. The process
  ends, and the sweep that the timer was to start does not take place; with a gateway
  that accepts the request it does.
\<close>

theorem unhandled_rejection_ends_sweeps:
  "unhandled (checkReleases (gateway_down (world [] (Some ''acme/missing''))) initial_state)
     = [NtfyError]
   \<and> logged (checkReleases (gateway_down (world [] (Some ''acme/missing''))) initial_state)
     = [(INFO, ''Performing release check'', None),
        (INFO, ''Found 1 repos to check...'', None),
        (DEBUG, ''Processing acme/missing - beta: false'', None),
        (ERROR, ''Repository not found: acme/missing'', None),
        (ERROR, ''Failed to process line acme/missing'', Some (TypeError ''find''))]
   \<and> sweeps [gateway_down (world [] (Some ''acme/missing'')),
              gateway_down (world [] (Some ''acme/missing''))] initial_state
     = checkReleases (gateway_down (world [] (Some ''acme/missing''))) initial_state
   \<and> length (filter (\<lambda>e. e = (INFO, ''Performing release check'', None))
        (logged (sweeps [gateway_down (world [] (Some ''acme/missing'')),
                         gateway_down (world [] (Some ''acme/missing''))] initial_state))) = 1
   \<and> length (filter (\<lambda>e. e = (INFO, ''Performing release check'', None))
        (logged (sweeps [world [] (Some ''acme/missing''),
                         world [] (Some ''acme/missing'')] initial_state))) = 2"
proof -
  have c: "checkReleases (gateway_down (world [] (Some ''acme/missing''))) initial_state
     = initial_state
         \<lparr>posted := [\<lparr>title = ''Error'', tags = ''exclamation'',
                      payload = ''Repository not found: acme/missing''\<rparr>],
          logged := [(INFO, ''Performing release check'', None),
                     (INFO, ''Found 1 repos to check...'', None),
                     (DEBUG, ''Processing acme/missing - beta: false'', None),
                     (ERROR, ''Repository not found: acme/missing'', None),
                     (ERROR, ''Failed to process line acme/missing'', Some (TypeError ''find''))],
          timers := [3600000],
          unhandled := [NtfyError]\<rparr>"
    by code_simp
  have i: "unhandled initial_state = []"
    by (simp add: initial_state_def)
  have s: "sweeps [gateway_down (world [] (Some ''acme/missing'')),
                   gateway_down (world [] (Some ''acme/missing''))] initial_state
     = checkReleases (gateway_down (world [] (Some ''acme/missing''))) initial_state"
    by (simp add: c i Let_def)
  have a: "length (filter (\<lambda>e. e = (INFO, ''Performing release check'', None))
        (logged (sweeps [world [] (Some ''acme/missing''),
                         world [] (Some ''acme/missing'')] initial_state))) = 2"
    by code_simp
  show ?thesis unfolding s using a by (simp add: c)
qed

section \<open>Links are rewritten after the length check\<close>

text \<open>Where a matcher cannot match, by the first characters of the text.\<close>

lemma issue_link_first: "c \<noteq> CHR ''h'' \<Longrightarrow> issue_link b (c # s) = None"
  by (simp add: issue_link_def lit_def)

lemma issue_link_second: "c \<noteq> CHR ''t'' \<Longrightarrow> issue_link b (CHR ''h'' # c # s) = None"
  by (simp add: issue_link_def lit_def)

lemma compare_link_first: "c \<noteq> CHR ''h'' \<Longrightarrow> compare_link b (c # s) = None"
  by (simp add: compare_link_def lit_def)

lemma compare_link_second: "c \<noteq> CHR ''t'' \<Longrightarrow> compare_link b (CHR ''h'' # c # s) = None"
  by (simp add: compare_link_def lit_def)

lemma ws_prefix_first:
  "c \<notin> set [CHR 0x09, CHR 0x0A, CHR 0x0B, CHR 0x0C, CHR 0x0D, CHR 0x20,
              CHR 0xC2, CHR 0xE1, CHR 0xE2, CHR 0xE3, CHR 0xEF]
   \<Longrightarrow> ws_prefix (c # s) = None"
  by (simp add: ws_prefix_def white_space_def)

lemma mention_first:
  "c \<notin> set [CHR 0x09, CHR 0x0A, CHR 0x0B, CHR 0x0C, CHR 0x0D, CHR 0x20,
              CHR 0xC2, CHR 0xE1, CHR 0xE2, CHR 0xE3, CHR 0xEF]
   \<Longrightarrow> c \<noteq> CHR ''@'' \<Longrightarrow> mention b (c # s) = None"
  by (simp add: mention_def mention_after_def lit_def ws_prefix_first)

lemma ws_prefix_newline: "ws_prefix (CHR 0x0A # s) = Some [CHR 0x0A]"
  by (simp add: ws_prefix_def white_space_def)

lemma ws_prefix_space: "ws_prefix (CHR 0x20 # s) = Some [CHR 0x20]"
  by (simp add: ws_prefix_def white_space_def)

lemma mention_newline: "lit ''@'' s = None \<Longrightarrow> mention b (CHR 0x0A # s) = None"
  by (simp add: mention_def mention_after_def lit_def ws_prefix_newline)

lemma mention_space: "lit ''@'' s = None \<Longrightarrow> mention b (CHR 0x20 # s) = None"
  by (simp add: mention_def mention_after_def lit_def ws_prefix_space)

text \<open>The three replacements on the lines of the sample release notes and on its header.\<close>

lemma issue_link_line:
  "issue_link b (issue_line @ rest)
     = Some (''https://github.com/acme/widget/issues/42'',
             ''[#42](https://github.com/acme/widget/issues/42)'')"
  by (simp add: issue_line_def issue_link_def lit_def run1_def issues_or_pull_def path_char_def
      word_char_def alnum_def digit_def upper_letters_def lower_letters_def)

lemma replace_issue_line:
  "replace_from b issue_link (issue_line @ rest)
     = issue_line_linked @ replace_from False issue_link rest"
  using issue_link_line [of b rest]
  by (simp add: issue_line_def issue_line_linked_def issue_link_first)

lemma replace_issue_lines:
  "replace_from False issue_link (concat (replicate n issue_line) @ rest)
     = concat (replicate n issue_line_linked) @ replace_from False issue_link rest"
  by (induction n) (simp_all add: replace_issue_line)

lemma replace_mention_line:
  "lit ''@'' rest = None
   \<Longrightarrow> replace_from False mention (issue_line_linked @ rest)
     = issue_line_linked @ replace_from False mention rest"
  by (simp add: issue_line_linked_def mention_first mention_newline)

lemma lit_at_lines:
  "lit ''@'' rest = None \<Longrightarrow> lit ''@'' (concat (replicate n issue_line_linked) @ rest) = None"
  by (cases n) (simp_all add: issue_line_linked_def lit_def)

lemma replace_mention_lines:
  "lit ''@'' rest = None
   \<Longrightarrow> replace_from False mention (concat (replicate n issue_line_linked) @ rest)
     = concat (replicate n issue_line_linked) @ replace_from False mention rest"
  by (induction n) (simp_all add: replace_mention_line lit_at_lines)

lemma compare_link_issue_url:
  "compare_link b (''https://github.com/acme/widget/issues/42)\<newline>'' @ rest) = None"
  by (simp add: compare_link_def lit_def run1_def path_char_def
      word_char_def alnum_def digit_def upper_letters_def lower_letters_def)

lemma replace_compare_line:
  "replace_from False compare_link (issue_line_linked @ rest)
     = issue_line_linked @ replace_from False compare_link rest"
  using compare_link_issue_url [of False rest]
  by (simp add: issue_line_linked_def compare_link_first compare_link_second)

lemma replace_compare_lines:
  "replace_from False compare_link (concat (replicate n issue_line_linked) @ rest)
     = concat (replicate n issue_line_linked) @ replace_from False compare_link rest"
  by (induction n) (simp_all add: replace_compare_line)

lemma headers_widget:
  "headers (world api fl) ''acme/widget'' (changelog_release n) ''v1.1.0'' = widget_header"
  by (simp add: headers_def world_def changelog_release_def show_null_def widget_header_def)

lemma issue_link_release_url:
  "issue_link b (''https://github.com/acme/widget/releases'' @ rest) = None"
  by (simp add: issue_link_def lit_def run1_def issues_or_pull_def path_char_def
      word_char_def alnum_def digit_def upper_letters_def lower_letters_def)

lemma compare_link_release_url:
  "compare_link b (''https://github.com/acme/widget/releases'' @ rest) = None"
  by (simp add: compare_link_def lit_def run1_def path_char_def
      word_char_def alnum_def digit_def upper_letters_def lower_letters_def)

lemma replace_issue_header:
  "replace_from True issue_link (widget_header @ rest)
     = widget_header @ replace_from False issue_link rest"
  using issue_link_release_url [of False]
  by (simp add: widget_header_def issue_link_first issue_link_second)

lemma replace_compare_header:
  "replace_from True compare_link (widget_header @ rest)
     = widget_header @ replace_from False compare_link rest"
  using compare_link_release_url [of False]
  by (simp add: widget_header_def compare_link_first compare_link_second)

lemma replace_mention_header:
  "lit ''@'' rest = None
   \<Longrightarrow> replace_from True mention (widget_header @ rest)
     = widget_header @ replace_from False mention rest"
  by (simp add: widget_header_def mention_first mention_newline mention_space lit_def)

lemma githubMarkdown_changelog:
  "githubMarkdown (world api fl) (widget_header @ concat (replicate n issue_line))
     = widget_header @ concat (replicate n issue_line_linked)"
proof -
  have 1: "replace issue_link (widget_header @ concat (replicate n issue_line))
             = widget_header @ concat (replicate n issue_line_linked)"
    using replace_issue_lines [of n "[]"]
    by (simp add: replace_def replace_issue_header)
  have 2: "replace mention (widget_header @ concat (replicate n issue_line_linked))
             = widget_header @ concat (replicate n issue_line_linked)"
    using replace_mention_lines [of "[]" n] lit_at_lines [of "[]" n]
    by (simp add: replace_def replace_mention_header lit_def)
  have 3: "replace compare_link (widget_header @ concat (replicate n issue_line_linked))
             = widget_header @ concat (replicate n issue_line_linked)"
    using replace_compare_lines [of n "[]"]
    by (simp add: replace_def replace_compare_header)
  show ?thesis
    by (simp add: githubMarkdown_def 1 2 3 world_def)
qed

lemma length_concat_replicate: "length (concat (replicate n xs)) = n * length xs"
  by (induction n) simp_all

text \<open>
  The message of a new release: the header and the body are measured after \<open>emojify\<close>
  alone, and \<open>githubMarkdown\<close> is applied to the message that has been put together.
\<close>

lemma notification_payload:
  assumes "selects d line rp r"
    and "map_of (releases st) rp = Some lastVersion" and "lastVersion \<noteq> []"
    and "validate d lastVersion" and "validate d (sanitizeVersion (tag_name r))"
    and "compareVersions d lastVersion (sanitizeVersion (tag_name r)) = -1"
  shows "posted (snd (processRepoLine d line st)) =
           posted st @
           [\<lparr>title = ''New release available for '' @ repo_name rp @ ''!'', tags = ''loudspeaker'',
             payload = githubMarkdown d
               (headers d rp r (sanitizeVersion (tag_name r)) @
                (if byteLength (emojify d (releaseBody r))
                      \<le> MAX_MESSAGE_BYTES - byteLength (headers d rp r (sanitizeVersion (tag_name r)))
                 then emojify d (releaseBody r)
                 else ''Full release notes: ['' @ html_url r @ '']('' @ html_url r @ '')''))\<rparr>]"
proof -
  let ?st1 = "log DEBUG (''Processing '' @ rp @ '' - beta: '' @ show_bool (beta (parseLine d line))) st"
  have "map_of (releases ?st1) rp = Some lastVersion" using assms(2) by simp
  from trackRelease_compared [OF this assms(3,4,5)] assms(6)
  have "trackRelease d rp r ?st1 = notifyRelease d rp r (sanitizeVersion (tag_name r)) ?st1"
    by (simp add: Let_def)
  then show ?thesis
    by (simp add: processRepoLine_selects [OF assms(1)] notifyRelease_fields trunkateReleaseBody_def)
qed

lemma selects_changelog:
  "selects (world (changelog_api n) fl) ''acme/widget'' ''acme/widget'' (changelog_release n)"
proof -
  note parseLine_widget [of "changelog_api n" fl]
  then show ?thesis
    by (simp add: selects_def world_def changelog_api_def sample_github_def latestRelease_def
        changelog_release_def)
qed

text \<open>
  C1 at a release whose notes are ninety issue URLs. The notes measured are 3690 bytes,
  within the 3868 bytes that the header leaves of \<open>MAX_MESSAGE_BYTES\<close>, so they are
  kept. \<open>sendNtfy\<close> then rewrites each URL into a link, and the message sent is 4452
  bytes long.
\<close>

theorem links_rewritten_after_check:
  "byteLength (emojify (world (changelog_api 90) None) (releaseBody (changelog_release 90)))
     \<le> MAX_MESSAGE_BYTES
         - byteLength (headers (world (changelog_api 90) None) ''acme/widget'' (changelog_release 90) ''v1.1.0'')
   \<and> posted (snd (processRepoLine (world (changelog_api 90) None) ''acme/widget''
        (initial_state\<lparr>releases := [(''acme/widget'', ''v1.0.0'')]\<rparr>)))
     = [\<lparr>title = ''New release available for widget!'', tags = ''loudspeaker'',
         payload = widget_header @ concat (replicate 90 issue_line_linked)\<rparr>]
   \<and> byteLength (widget_header @ concat (replicate 90 issue_line_linked)) = 4452
   \<and> MAX_MESSAGE_BYTES = 4000"
proof -
  let ?w = "world (changelog_api 90) None"
  let ?st = "initial_state\<lparr>releases := [(''acme/widget'', ''v1.0.0'')]\<rparr>"
  have cur: "sanitizeVersion (tag_name (changelog_release 90)) = ''v1.1.0''"
    unfolding changelog_release_def by (simp, code_simp)
  have val: "validate ?w ''v1.0.0''" "validate ?w ''v1.1.0''"
    unfolding world_def by (simp, code_simp)+
  have cmp: "compareVersions ?w ''v1.0.0'' ''v1.1.0'' = -1"
    unfolding world_def by (simp, code_simp)
  have bdy: "emojify ?w (releaseBody (changelog_release 90)) = concat (replicate 90 issue_line)"
    by (simp add: world_def releaseBody_def changelog_release_def issue_line_def)
  have fits: "byteLength (concat (replicate 90 issue_line)) \<le> MAX_MESSAGE_BYTES - byteLength widget_header"
    by (simp add: byteLength_def length_concat_replicate issue_line_def widget_header_def
        MAX_MESSAGE_BYTES_def)
  have name: "repo_name ''acme/widget'' = ''widget''"
    by code_simp
  have "posted (snd (processRepoLine ?w ''acme/widget'' ?st))
     = [\<lparr>title = ''New release available for widget!'', tags = ''loudspeaker'',
         payload = widget_header @ concat (replicate 90 issue_line_linked)\<rparr>]"
    using notification_payload [OF selects_changelog, of ?st "''v1.0.0''" 90 None] fits
    by (simp add: cur val cmp bdy name headers_widget githubMarkdown_changelog initial_state_def)
  moreover have "byteLength (widget_header @ concat (replicate 90 issue_line_linked)) = 4452"
    by (simp add: byteLength_def length_concat_replicate issue_line_linked_def widget_header_def)
  ultimately show ?thesis
    using fits by (simp add: bdy headers_widget MAX_MESSAGE_BYTES_def)
qed

section \<open>Letter case of the repository id\<close>

lemma split_not_Nil: "split d s \<noteq> []"
  by (induction s) (auto split: list.splits)














section \<open>Normalisation of tags\<close>

lemma dot_no_digit: "\<not> digit CHR ''.''"
  by (simp add: digit_def)

lemma split_without: "\<forall>c\<in>set p. c \<noteq> d \<Longrightarrow> split d p = [p]"
  by (induction p) auto

lemma split_append: "\<forall>c\<in>set p. c \<noteq> d \<Longrightarrow> split d (p @ d # t) = p # split d t"
  by (induction p) auto

lemma join_Cons: "join sep ((c # p) # ps) = c # join sep (p # ps)"
  by (cases ps) auto

lemma join_split: "join [d] (split d s) = s"
proof (induction s)
  case Nil
  then show ?case by simp
next
  case (Cons c s)
  obtain p ps where s: "split d s = p # ps"
    using split_not_Nil [of d s] by (cases "split d s") auto
  with Cons show ?case by (auto simp: join_Cons)
qed

lemma digits_no_dot: "\<forall>c\<in>set p. digit c \<Longrightarrow> \<forall>c\<in>set p. c \<noteq> CHR ''.''"
  using dot_no_digit by auto

lemma dot_groups_Nil: "dot_groups [] = ([], [])"
  by (subst dot_groups.simps) simp

lemma dot_groups_Cons:
  "dot_groups (c # t) =
     (if c = CHR ''.'' \<and> takeWhile digit t \<noteq> []
      then (case dot_groups (dropWhile digit t) of (g, r) \<Rightarrow> (c # takeWhile digit t @ g, r))
      else ([], c # t))"
  by (subst dot_groups.simps) simp

lemma dot_groups_append: "dot_groups s = (g, r) \<Longrightarrow> s = g @ r"
proof (induction s arbitrary: g r rule: dot_groups.induct)
  case (1 s)
  show ?case
  proof (cases s)
    case Nil
    with "1.prems" show ?thesis by (simp add: dot_groups_Nil)
  next
    case (Cons c t)
    show ?thesis
    proof (cases "c = CHR ''.'' \<and> takeWhile digit t \<noteq> []")
      case True
      obtain g' r' where d: "dot_groups (dropWhile digit t) = (g', r')"
        by (cases "dot_groups (dropWhile digit t)")
      from "1.IH" [OF Cons True d] have "dropWhile digit t = g' @ r'" .
      moreover from "1.prems" Cons True d have "g = c # takeWhile digit t @ g'" "r = r'"
        by (simp_all add: dot_groups_Cons)
      ultimately have "g @ r = c # takeWhile digit t @ dropWhile digit t" by simp
      with Cons show ?thesis by simp
    next
      case False
      with "1.prems" Cons show ?thesis by (auto simp: dot_groups_Cons)
    qed
  qed
qed

lemma dot_groups_parts:
  "dot_groups s = (g, r) \<Longrightarrow>
     g = [] \<or> (\<exists>t. g = CHR ''.'' # t
                \<and> (\<forall>p\<in>set (split CHR ''.'' t). p \<noteq> [] \<and> (\<forall>c\<in>set p. digit c)))"
proof (induction s arbitrary: g r rule: dot_groups.induct)
  case (1 s)
  show ?case
  proof (cases s)
    case Nil
    with "1.prems" show ?thesis by (simp add: dot_groups_Nil)
  next
    case (Cons c t)
    show ?thesis
    proof (cases "c = CHR ''.'' \<and> takeWhile digit t \<noteq> []")
      case True
      let ?d = "takeWhile digit t"
      obtain g' r' where d: "dot_groups (dropWhile digit t) = (g', r')"
        by (cases "dot_groups (dropWhile digit t)")
      from "1.prems" Cons True d have g: "g = CHR ''.'' # ?d @ g'"
        by (simp add: dot_groups_Cons)
      have dig: "\<forall>c\<in>set ?d. digit c" by (auto dest: set_takeWhileD)
      then have nodot: "\<forall>c\<in>set ?d. c \<noteq> CHR ''.''" by (rule digits_no_dot)
      from "1.IH" [OF Cons True d]
      consider "g' = []"
        | t' where "g' = CHR ''.'' # t'"
            "\<forall>p\<in>set (split CHR ''.'' t'). p \<noteq> [] \<and> (\<forall>c\<in>set p. digit c)"
        by blast
      then have "\<forall>p\<in>set (split CHR ''.'' (?d @ g')). p \<noteq> [] \<and> (\<forall>c\<in>set p. digit c)"
      proof cases
        case 1
        with True dig nodot show ?thesis by (simp add: split_without)
      next
        case 2
        with True dig nodot show ?thesis by (simp add: split_append)
      qed
      with g show ?thesis by blast
    next
      case False
      with "1.prems" Cons show ?thesis by (auto simp: dot_groups_Cons)
    qed
  qed
qed

lemma dotted_sound:
  assumes "dotted s = Some (m, r)"
  shows "s = m @ r \<and> dotted_numeric m"
proof -
  let ?d = "takeWhile digit s"
  obtain g r' where d: "dot_groups (dropWhile digit s) = (g, r')"
    by (cases "dot_groups (dropWhile digit s)")
  from assms d have ne: "?d \<noteq> []" "g \<noteq> []" and m: "m = ?d @ g" "r = r'"
    by (auto simp: dotted_def split: if_splits)
  from dot_groups_append [OF d] have "s = ?d @ g @ r'"
    by (metis takeWhile_dropWhile_id)
  with m have s: "s = m @ r" by simp
  have dig: "\<forall>c\<in>set ?d. digit c" by (auto dest: set_takeWhileD)
  then have nodot: "\<forall>c\<in>set ?d. c \<noteq> CHR ''.''" by (rule digits_no_dot)
  from dot_groups_parts [OF d] ne obtain t where
    t: "g = CHR ''.'' # t" "\<forall>p\<in>set (split CHR ''.'' t). p \<noteq> [] \<and> (\<forall>c\<in>set p. digit c)"
    by blast
  have sp: "split CHR ''.'' m = ?d # split CHR ''.'' t"
    using nodot by (simp add: m t split_append)
  have "2 \<le> length (split CHR ''.'' m)"
    using split_not_Nil [of "CHR ''.''" t] by (cases "split CHR ''.'' t") (auto simp: sp)
  with sp t ne dig have "dotted_numeric m" by (simp add: dotted_numeric_def)
  with s show ?thesis by simp
qed


lemma dot_groups_reaches:
  assumes "qs \<noteq> []" and "\<forall>q\<in>set qs. q \<noteq> [] \<and> (\<forall>c\<in>set q. digit c)"
  shows "\<exists>g r'. dot_groups (CHR ''.'' # join ''.'' qs @ r) = (g, r')
           \<and> Suc (length (join ''.'' qs)) \<le> length g"
  using assms
proof (induction qs rule: list_nonempty_induct)
  case (single q)
  then have q: "q \<noteq> []" "\<And>c. c \<in> set q \<Longrightarrow> digit c" by auto
  have t: "takeWhile digit (q @ r) = q @ takeWhile digit r"
    using q(2) by (rule takeWhile_append2)
  obtain g' r' where "dot_groups (dropWhile digit (q @ r)) = (g', r')"
    by (cases "dot_groups (dropWhile digit (q @ r))")
  with t q(1) show ?case by (simp add: dot_groups_Cons)
next
  case (cons q qs)
  then have q: "q \<noteq> []" "\<And>c. c \<in> set q \<Longrightarrow> digit c"
    and rest: "\<forall>q\<in>set qs. q \<noteq> [] \<and> (\<forall>c\<in>set q. digit c)"
    by auto
  obtain q' qs' where qs: "qs = q' # qs'" using cons.hyps by (cases qs) auto
  let ?tail = "CHR ''.'' # join ''.'' qs @ r"
  have j: "join ''.'' (q # qs) @ r = q @ ?tail" by (simp add: qs)
  have t: "takeWhile digit (q @ ?tail) = q"
    using q(2) dot_no_digit by (simp add: takeWhile_append2)
  have d: "dropWhile digit (q @ ?tail) = ?tail"
    using q(2) dot_no_digit by (simp add: dropWhile_append2)
  from cons.IH [OF rest] obtain g r' where
    g: "dot_groups ?tail = (g, r')" "Suc (length (join ''.'' qs)) \<le> length g"
    by blast
  have "dot_groups (CHR ''.'' # join ''.'' (q # qs) @ r) = (CHR ''.'' # q @ g, r')"
    unfolding j using q(1) by (subst dot_groups_Cons) (simp add: t d g(1))
  moreover have "Suc (length (join ''.'' (q # qs))) \<le> length (CHR ''.'' # q @ g)"
    using g(2) by (simp add: qs)
  ultimately show ?case by blast
qed

lemma dotted_complete:
  assumes "dotted_numeric m"
  shows "\<exists>m' r'. dotted (m @ r) = Some (m', r') \<and> length m \<le> length m'"
proof -
  from assms obtain p qs where
    sp: "split CHR ''.'' m = p # qs" and qs: "qs \<noteq> []"
    and parts: "\<forall>q\<in>set (p # qs). q \<noteq> [] \<and> (\<forall>c\<in>set q. digit c)"
    unfolding dotted_numeric_def
    by (cases "split CHR ''.'' m") (auto simp: Suc_le_eq)
  obtain q' qs' where qs': "qs = q' # qs'" using qs by (cases qs) auto
  have "m = join ''.'' (split CHR ''.'' m)" by (simp add: join_split)
  then have m: "m = p @ CHR ''.'' # join ''.'' qs" by (simp add: sp qs')
  from parts have p: "p \<noteq> []" "\<And>c. c \<in> set p \<Longrightarrow> digit c"
    and rest: "\<forall>q\<in>set qs. q \<noteq> [] \<and> (\<forall>c\<in>set q. digit c)"
    by auto
  let ?tail = "CHR ''.'' # join ''.'' qs @ r"
  have mr: "m @ r = p @ ?tail" by (simp add: m)
  have t: "takeWhile digit (p @ ?tail) = p"
    using p(2) dot_no_digit by (simp add: takeWhile_append2)
  have d: "dropWhile digit (p @ ?tail) = ?tail"
    using p(2) dot_no_digit by (simp add: dropWhile_append2)
  from dot_groups_reaches [OF qs rest, of r] obtain g r' where
    g: "dot_groups ?tail = (g, r')" "Suc (length (join ''.'' qs)) \<le> length g"
    by blast
  then have "g \<noteq> []" by auto
  with p(1) have "dotted (m @ r) = Some (p @ g, r')"
    unfolding mr by (simp add: dotted_def t d g(1))
  moreover have "length m \<le> length (p @ g)" using g(2) by (simp add: m)
  ultimately show ?thesis by blast
qed

lemma first_dotted_Some:
  "first_dotted s = Some m \<Longrightarrow>
     \<exists>pre post. s = pre @ m @ post \<and> dotted (m @ post) = Some (m, post)
       \<and> (\<forall>k<length pre. dotted (drop k s) = None)"
proof (induction s)
  case Nil
  then show ?case by simp
next
  case (Cons c s)
  show ?case
  proof (cases "dotted (c # s)")
    case None
    with Cons.prems have "first_dotted s = Some m" by simp
    from Cons.IH [OF this] obtain pre post where
      p: "s = pre @ m @ post" "dotted (m @ post) = Some (m, post)"
        "\<forall>k<length pre. dotted (drop k s) = None"
      by blast
    have "\<forall>k<length (c # pre). dotted (drop k (c # s)) = None"
    proof (intro allI impI)
      fix k assume "k < length (c # pre)"
      then show "dotted (drop k (c # s)) = None"
        using None p(3) by (cases k) auto
    qed
    with p(1,2) have "c # s = (c # pre) @ m @ post \<and> dotted (m @ post) = Some (m, post)
        \<and> (\<forall>k<length (c # pre). dotted (drop k (c # s)) = None)"
      by simp
    then show ?thesis by blast
  next
    case (Some a)
    obtain m' r where a: "a = (m', r)" by (cases a)
    with Some Cons.prems have "m' = m" by simp
    with Some a have d: "dotted (c # s) = Some (m, r)" by simp
    from dotted_sound [OF d] have "c # s = m @ r" by simp
    with d have "c # s = [] @ m @ r \<and> dotted (m @ r) = Some (m, r)
        \<and> (\<forall>k<length ([] :: string). dotted (drop k (c # s)) = None)"
      by simp
    then show ?thesis by blast
  qed
qed

lemma first_dotted_None: "first_dotted s = None \<Longrightarrow> dotted (drop k s) = None"
proof (induction s arbitrary: k)
  case Nil
  then show ?case by (simp add: dotted_def)
next
  case (Cons c s)
  then have "dotted (c # s) = None" "first_dotted s = None"
    by (auto split: option.splits)
  with Cons.IH show ?case by (cases k) auto
qed


lemma dotted_numeric_digit: "dotted_numeric m \<Longrightarrow> \<exists>c\<in>set m. digit c"
proof -
  assume d: "dotted_numeric m"
  then obtain p qs where sp: "split CHR ''.'' m = p # qs"
    and p: "p \<noteq> []" "\<forall>c\<in>set p. digit c"
    unfolding dotted_numeric_def by (cases "split CHR ''.'' m") auto
  have "m = join ''.'' (split CHR ''.'' m)" by (simp add: join_split)
  then have "set p \<subseteq> set m" by (cases qs) (auto simp: sp)
  with p show ?thesis by (cases p) auto
qed

text \<open>
  C7. \<open>sanitizeVersion\<close> returns \<open>v\<close> followed by the first dotted numeric sequence of
  the tag: no dotted numeric sequence starts further left, and none that starts at the same
  place is longer. It returns the empty string when the tag holds no dotted numeric
  sequence. In particular \<open>v2.3.1-rc.1\<close> gives \<open>v2.3.1\<close> and \<open>release\<close> gives the
  empty string.
\<close>

theorem sanitizeVersion_first_dotted_numeric:
  "sanitizeVersion ''v2.3.1-rc.1'' = ''v2.3.1''
   \<and> sanitizeVersion ''release'' = []
   \<and> ((\<forall>pre m post. tag = pre @ m @ post \<longrightarrow> \<not> dotted_numeric m) \<longrightarrow> sanitizeVersion tag = [])
   \<and> (tag = pre @ m @ post \<and> dotted_numeric m \<longrightarrow>
        (\<exists>pre' m' post'. tag = pre' @ m' @ post' \<and> dotted_numeric m'
           \<and> sanitizeVersion tag = CHR ''v'' # m'
           \<and> length pre' \<le> length pre
           \<and> (length pre' = length pre \<longrightarrow> length m \<le> length m')))"
proof (intro conjI impI)
  show "sanitizeVersion ''v2.3.1-rc.1'' = ''v2.3.1''" by code_simp
  show "sanitizeVersion ''release'' = []" by code_simp
next
  assume no: "\<forall>pre m post. tag = pre @ m @ post \<longrightarrow> \<not> dotted_numeric m"
  show "sanitizeVersion tag = []"
  proof (cases "first_dotted tag")
    case None
    then show ?thesis by (simp add: sanitizeVersion_def)
  next
    case (Some m')
    from first_dotted_Some [OF Some] obtain pre' post' where
      "tag = pre' @ m' @ post'" "dotted (m' @ post') = Some (m', post')"
      by blast
    with dotted_sound no show ?thesis by blast
  qed
next
  assume a: "tag = pre @ m @ post \<and> dotted_numeric m"
  then have tag: "drop (length pre) tag = m @ post" by simp
  from a dotted_complete obtain m2 r2 where
    m2: "dotted (m @ post) = Some (m2, r2)" "length m \<le> length m2"
    by blast
  have "first_dotted tag \<noteq> None"
    using first_dotted_None [of tag "length pre"] tag m2(1) by auto
  then obtain m' where f: "first_dotted tag = Some m'" by auto
  from first_dotted_Some [OF f] obtain pre' post' where
    p: "tag = pre' @ m' @ post'" "dotted (m' @ post') = Some (m', post')"
      "\<forall>k<length pre'. dotted (drop k tag) = None"
    by blast
  from dotted_sound [OF p(2)] have dn: "dotted_numeric m'" by simp
  have le: "length pre' \<le> length pre"
  proof (rule ccontr)
    assume "\<not> length pre' \<le> length pre"
    then have "dotted (drop (length pre) tag) = None" using p(3) by simp
    with tag m2(1) show False by simp
  qed
  have longest: "length m \<le> length m'" if "length pre' = length pre"
  proof -
    from p(1) have "drop (length pre') tag = m' @ post'" by simp
    with that tag have "m' @ post' = m @ post" by simp
    with p(2) m2(1) have "m' = m2" by simp
    with m2(2) show ?thesis by simp
  qed
  from f have "sanitizeVersion tag = CHR ''v'' # m'" by (simp add: sanitizeVersion_def)
  with p(1) dn le longest
  show "\<exists>pre' m' post'. tag = pre' @ m' @ post' \<and> dotted_numeric m'
           \<and> sanitizeVersion tag = CHR ''v'' # m'
           \<and> length pre' \<le> length pre
           \<and> (length pre' = length pre \<longrightarrow> length m \<le> length m')"
    by blast
qed

theorem sanitizeVersion_first_dotted_numeric_witness:
  "dotted_numeric ''12.4.0''
   \<and> (\<exists>m'. dotted_numeric m' \<and> length ''12.4.0'' \<le> length m'
          \<and> sanitizeVersion ''release-12.4.0-beta.2'' = CHR ''v'' # m')
   \<and> sanitizeVersion ''release-12.4.0-beta.2'' = ''v12.4.0''
   \<and> sanitizeVersion ''nightly'' = []"
proof -
  have d: "dotted_numeric ''12.4.0''" by code_simp
  have t: "''release-12.4.0-beta.2'' = ''release-'' @ ''12.4.0'' @ ''-beta.2''" by simp
  have "\<exists>pre' m' post'. ''release-12.4.0-beta.2'' = pre' @ m' @ post' \<and> dotted_numeric m'
           \<and> sanitizeVersion ''release-12.4.0-beta.2'' = CHR ''v'' # m'
           \<and> length pre' \<le> length ''release-''
           \<and> (length pre' = length ''release-'' \<longrightarrow> length ''12.4.0'' \<le> length m')"
    using sanitizeVersion_first_dotted_numeric [of "''release-12.4.0-beta.2''" "''release-''"
        "''12.4.0''" "''-beta.2''"] d t
    by blast
  then obtain pre' m' post' where
    m': "''release-12.4.0-beta.2'' = pre' @ m' @ post'" "dotted_numeric m'"
      "sanitizeVersion ''release-12.4.0-beta.2'' = CHR ''v'' # m'"
      "length pre' \<le> length ''release-''"
      "length pre' = length ''release-'' \<longrightarrow> length ''12.4.0'' \<le> length m'"
    by blast
  have v: "sanitizeVersion ''release-12.4.0-beta.2'' = ''v12.4.0''" by code_simp
  with m'(3) have "m' = ''12.4.0''" by simp
  with m'(2,3) have e: "\<exists>m'. dotted_numeric m' \<and> length ''12.4.0'' \<le> length m'
          \<and> sanitizeVersion ''release-12.4.0-beta.2'' = CHR ''v'' # m'"
    by auto
  have "\<forall>pre m post. ''nightly'' = pre @ m @ post \<longrightarrow> \<not> dotted_numeric m"
  proof (intro allI impI notI)
    fix pre m post assume n: "''nightly'' = pre @ m @ post" and "dotted_numeric m"
    then obtain c where "c \<in> set m" "digit c" using dotted_numeric_digit by blast
    moreover from n have "set m \<subseteq> set ''nightly''" by (metis set_append Un_upper1 Un_upper2 subset_trans)
    ultimately show False by (auto simp: digit_def)
  qed
  then have n: "sanitizeVersion ''nightly'' = []"
    using sanitizeVersion_first_dotted_numeric [of "''nightly''"] by blast
  from d e v n show ?thesis by blast
qed

end
